theory Spec2Isabelle
  imports Main "HOL-Library.Sublist"
begin

section \<open>Strings of the program\<close>

text \<open>
  A Python \<open>str\<close> is modelled as a \<open>string\<close>: one \<open>char\<close> stands for one character of
  the \<open>str\<close>, so \<open>length\<close>, \<open>take\<close> and indexing count what the source counts.  The
  pictographs of the source's literals lie outside the range of \<open>char\<close>; they are kept as
  named constants holding their UTF-8 bytes.  No length below measures them.
\<close>

definition backslash :: char where
  "backslash = CHR 0x5C"

definition LF :: char where
  "LF = CHR 0x0A"

definition CR :: char where
  "CR = CHR 0x0D"

definition WARNING_SIGN :: string where
  "WARNING_SIGN = [CHR 0xE2, CHR 0x9A, CHR 0xA0, CHR 0xEF, CHR 0xB8, CHR 0x8F]"

definition LOUDSPEAKER :: string where
  "LOUDSPEAKER = [CHR 0xF0, CHR 0x9F, CHR 0x93, CHR 0xA2]"

definition MEMO :: string where
  "MEMO = [CHR 0xF0, CHR 0x9F, CHR 0x93, CHR 0x9D]"

definition LINK_SIGN :: string where
  "LINK_SIGN = [CHR 0xF0, CHR 0x9F, CHR 0x94, CHR 0x97]"

definition CALENDAR :: string where
  "CALENDAR = [CHR 0xF0, CHR 0x9F, CHR 0x93, CHR 0x85]"

definition FOLDER :: string where
  "FOLDER = [CHR 0xF0, CHR 0x9F, CHR 0x93, CHR 0x82]"

text \<open>
  \<open>str.isspace\<close> on one character, for the characters a \<open>char\<close> can hold: the ASCII
  white space, the four separators \<open>0x1C\<close> to \<open>0x1F\<close>, NEL and the no-break space.
\<close>

definition isspace :: "char \<Rightarrow> bool" where
  "isspace c \<longleftrightarrow> c \<in> set [CHR 0x09, CHR 0x0A, CHR 0x0B, CHR 0x0C, CHR 0x0D,
     CHR 0x1C, CHR 0x1D, CHR 0x1E, CHR 0x1F, CHR 0x20, CHR 0x85, CHR 0xA0]"

text \<open>\<open>s.strip()\<close> with no argument.\<close>

definition strip :: "string \<Rightarrow> string" where
  "strip s = rev (dropWhile isspace (rev (dropWhile isspace s)))"

text \<open>\<open>sub in s\<close> on strings and on bytes: \<open>sub\<close> occurs in \<open>s\<close> as a contiguous run.\<close>

fun py_in :: "'a list \<Rightarrow> 'a list \<Rightarrow> bool" where
  "py_in sub [] = (sub = [])"
| "py_in sub (x # xs) = (prefix sub (x # xs) \<or> py_in sub xs)"

text \<open>\<open>sep.join(parts)\<close>.\<close>

fun join :: "string \<Rightarrow> string list \<Rightarrow> string" where
  "join sep [] = []"
| "join sep [p] = p"
| "join sep (p # q # ps) = p @ sep @ join sep (q # ps)"

section \<open>Helpers: \<open>escape_markdown\<close>\<close>

text \<open>
  \<open>re.sub(pattern, repl, text)\<close> for a pattern that is one character class in one group:
  the matches are the characters of the class, taken from left to right; each is replaced
  by the replacement template applied to the matched group, every other character is
  copied.
\<close>

fun re_sub_class :: "char list \<Rightarrow> (char \<Rightarrow> string) \<Rightarrow> string \<Rightarrow> string" where
  "re_sub_class cls repl [] = []"
| "re_sub_class cls repl (c # cs) =
     (if c \<in> set cls then repl c @ re_sub_class cls repl cs
      else c # re_sub_class cls repl cs)"

definition escape_chars :: string where
  "escape_chars = ''_*[]()~`>#+-=|{}.!''"

text \<open>
  \<open>re.escape(escape_chars)\<close> puts a backslash before the characters that are special in a
  pattern (among them \<open>-\<close>, \<open>]\<close> and \<open>[\<close>), so the class \<open>[...]\<close> holds the characters of
  \<open>escape_chars\<close> and no range.  The template \<open>r'\\\1'\<close> is a backslash followed by the
  group.
\<close>

definition escape_markdown :: "string \<Rightarrow> string" where
  "escape_markdown text = re_sub_class escape_chars (\<lambda>g. [backslash, g]) text"

definition reserved :: "char \<Rightarrow> bool" where
  "reserved c \<longleftrightarrow> c \<in> set escape_chars"

text \<open>
  Where the character at index \<open>i\<close> of the input stands in the output: after the
  characters before it and after one inserted character for every reserved character up to
  and including itself.
\<close>

definition out_pos :: "string \<Rightarrow> nat \<Rightarrow> nat" where
  "out_pos text i = i + length (filter reserved (take (Suc i) text))"

text \<open>The character at index \<open>p\<close> of \<open>out\<close> has exactly one backslash before it.\<close>

definition one_backslash_before :: "string \<Rightarrow> nat \<Rightarrow> bool" where
  "one_backslash_before out p \<longleftrightarrow>
     0 < p \<and> out ! (p - 1) = backslash \<and> (p = 1 \<or> out ! (p - 2) \<noteq> backslash)"

section \<open>Values, exceptions and the world outside the program\<close>

text \<open>
  An exception is a value: its type name and its message \<open>str(e)\<close>.  A call that may
  raise returns \<open>exn + 'a\<close>, with \<open>Inl\<close> for the exception.
\<close>

datatype exn = Exn (exn_type: string) (exn_message: string)

definition quoted :: "string \<Rightarrow> string" where
  "quoted s = [CHR 0x27] @ s @ [CHR 0x27]"

definition AttributeError :: "string \<Rightarrow> string \<Rightarrow> exn" where
  "AttributeError tname attr =
     Exn ''AttributeError'' (quoted tname @ '' object has no attribute '' @ quoted attr)"

definition KeyError :: "string \<Rightarrow> exn" where
  "KeyError key = Exn ''KeyError'' key"

definition IndexError :: "string \<Rightarrow> exn" where
  "IndexError tname = Exn ''IndexError'' (tname @ '' index out of range'')"

definition TypeError_not_subscriptable :: "string \<Rightarrow> exn" where
  "TypeError_not_subscriptable tname =
     Exn ''TypeError'' (quoted tname @ '' object is not subscriptable'')"

text \<open>
  The values \<open>response.json()\<close> can return, which are also the values a JSON payload is
  built from.  An object is the list of its items; a lookup takes the first item with the
  key.  Of the numbers only the integers are kept: no case below looks inside a number.
\<close>

datatype json =
    JNull
  | JBool bool
  | JNum int
  | JStr string
  | JArr "json list"
  | JObj "(string \<times> json) list"

fun type_name :: "json \<Rightarrow> string" where
  "type_name JNull = ''NoneType''"
| "type_name (JBool b) = ''bool''"
| "type_name (JNum n) = ''int''"
| "type_name (JStr s) = ''str''"
| "type_name (JArr xs) = ''list''"
| "type_name (JObj kvs) = ''dict''"

text \<open>\<open>v[0]\<close> on such a value.\<close>

fun subscript0 :: "json \<Rightarrow> exn + json" where
  "subscript0 (JArr []) = Inl (IndexError ''list'')"
| "subscript0 (JArr (x # xs)) = Inr x"
| "subscript0 (JStr []) = Inl (IndexError ''string'')"
| "subscript0 (JStr (c # cs)) = Inr (JStr [c])"
| "subscript0 (JObj kvs) = Inl (KeyError ''0'')"
| "subscript0 v = Inl (TypeError_not_subscriptable (type_name v))"

text \<open>\<open>v.get(key, default)\<close> on such a value: only a dict has the method.\<close>

fun dict_get :: "json \<Rightarrow> string \<Rightarrow> json \<Rightarrow> exn + json" where
  "dict_get (JObj kvs) key dflt =
     Inr (case map_of kvs key of None \<Rightarrow> dflt | Some v \<Rightarrow> v)"
| "dict_get v key dflt = Inl (AttributeError (type_name v) ''get'')"

type_synonym bytes = "char list"

datatype request =
    GET string "(string \<times> string) list" nat
  | POST string "(string \<times> string) list" json nat

record response =
  resp_status_code :: int
  resp_text :: string
  resp_content :: bytes
  resp_json :: "exn + json"

text \<open>
  The document tree that \<open>BeautifulSoup(markup, "html.parser")\<close> builds: tags with their
  attributes and children, and strings.
\<close>

datatype node =
    Tag string "(string \<times> string) list" "node list"
  | NavigableString string

text \<open>
  Everything the program reads from outside itself.  The libraries it calls are not part
  of the repository and are taken as they answer: a call to one of them either raises or
  returns.

  \<^item> \<open>http n req\<close>: the outcome of the request \<open>req\<close> when \<open>n\<close> requests were made before it
    in this run (\<open>requests.get\<close>, \<open>requests.post\<close>; a timeout is one of the exceptions);
  \<^item> \<open>BeautifulSoup\<close>: the parser; \<open>urljoin\<close>, \<open>urlparse_query\<close> (the \<open>query\<close> component of
    \<open>urlparse(url)\<close>) and \<open>parse_qs\<close> of \<open>urllib.parse\<close>;
  \<^item> \<open>pdfplumber_open\<close>: the pages of a document, each with the outcome of its
    \<open>extract_text()\<close>;
  \<^item> \<open>repr_value\<close>: how an f-string formats a value that is neither a string, \<open>None\<close> nor
    a boolean;
  \<^item> \<open>environ\<close>: the environment after \<open>load_dotenv()\<close>; \<open>linesep\<close>: \<open>os.linesep\<close>;
  \<^item> \<open>read_error\<close>: the exception, if any, that opening, reading or decoding the existing
    state file raises; \<open>open_error\<close>: the exception, if any, that opening the state file
    for writing raises; \<open>write_error\<close>: the exception, if any, that writing to the opened
    (and so truncated) file raises.
\<close>

record world =
  http :: "nat \<Rightarrow> request \<Rightarrow> exn + response"
  BeautifulSoup :: "string \<Rightarrow> exn + node"
  urljoin :: "string \<Rightarrow> string \<Rightarrow> exn + string"
  urlparse_query :: "string \<Rightarrow> exn + string"
  parse_qs :: "string \<Rightarrow> exn + (string \<rightharpoonup> string list)"
  pdfplumber_open :: "bytes \<Rightarrow> exn + (exn + string option) list"
  repr_value :: "json \<Rightarrow> string"
  environ :: "string \<rightharpoonup> string"
  linesep :: string
  read_error :: "exn option"
  open_error :: "exn option"
  write_error :: "exn option"

text \<open>
  A request is made by appending it to the log of the run's requests; the world answers
  it.  The log is the only trace the network stages leave.
\<close>

definition send_request :: "world \<Rightarrow> request \<Rightarrow> request list \<Rightarrow> (exn + response) \<times> request list" where
  "send_request w req log = (http w (length log) req, log @ [req])"

text \<open>\<open>not v\<close> for a value that is \<open>None\<close> or a string (or bytes).\<close>

definition falsy :: "'a list option \<Rightarrow> bool" where
  "falsy v \<longleftrightarrow> (case v of None \<Rightarrow> True | Some s \<Rightarrow> s = [])"

section \<open>Module constants\<close>

definition SEBI_URL :: string where
  "SEBI_URL = ''https://www.sebi.gov.in/sebiweb/home/HomeAction.do?doListingAll=yes''"

definition HEADERS :: "(string \<times> string) list" where
  "HEADERS = [(''User-Agent'', ''Mozilla/5.0'')]"

definition HF_API_KEY :: "world \<Rightarrow> string option" where
  "HF_API_KEY w = environ w ''HF_API_KEY''"

definition HF_MODEL :: "world \<Rightarrow> string" where
  "HF_MODEL w = (case environ w ''HF_MODEL'' of None \<Rightarrow> ''facebook/bart-large-cnn'' | Some m \<Rightarrow> m)"

definition TELEGRAM_TOKEN :: "world \<Rightarrow> string option" where
  "TELEGRAM_TOKEN w = environ w ''TELEGRAM_TOKEN''"

definition TELEGRAM_CHAT_ID :: "world \<Rightarrow> string option" where
  "TELEGRAM_CHAT_ID w = environ w ''TELEGRAM_CHAT_ID''"

section \<open>The document tree\<close>

text \<open>The tags and strings below a node, in document order.\<close>

fun descendants :: "node \<Rightarrow> node list" where
  "descendants (Tag name attrs children) = concat (map (\<lambda>c. c # descendants c) children)"
| "descendants (NavigableString s) = []"

definition named :: "string \<Rightarrow> node \<Rightarrow> bool" where
  "named name n \<longleftrightarrow> (case n of Tag m attrs children \<Rightarrow> m = name | NavigableString s \<Rightarrow> False)"

text \<open>\<open>tag.get(key)\<close>.\<close>

definition get_attr :: "node \<Rightarrow> string \<Rightarrow> string option" where
  "get_attr n key = (case n of Tag m attrs children \<Rightarrow> map_of attrs key | NavigableString s \<Rightarrow> None)"

text \<open>\<open>tag[key]\<close>.\<close>

definition getitem :: "node \<Rightarrow> string \<Rightarrow> exn + string" where
  "getitem n key = (case get_attr n key of None \<Rightarrow> Inl (KeyError (quoted key)) | Some v \<Rightarrow> Inr v)"

definition attr_is :: "string \<Rightarrow> string \<Rightarrow> node \<Rightarrow> bool" where
  "attr_is key v n \<longleftrightarrow> get_attr n key = Some v"

text \<open>
  The \<open>class\<close> attribute holds several values, the runs of the attribute's text without
  white space; \<open>class_="table"\<close> matches a tag one of whose classes is \<open>table\<close>.
\<close>

fun split_ws :: "string \<Rightarrow> string \<Rightarrow> string list" where
  "split_ws acc [] = (if acc = [] then [] else [acc])"
| "split_ws acc (c # cs) =
     (if isspace c then (if acc = [] then split_ws [] cs else acc # split_ws [] cs)
      else split_ws (acc @ [c]) cs)"

definition class_has :: "string \<Rightarrow> node \<Rightarrow> bool" where
  "class_has c n \<longleftrightarrow> (case get_attr n ''class'' of None \<Rightarrow> False | Some v \<Rightarrow> c \<in> set (split_ws [] v))"

text \<open>\<open>node.find(...)\<close> and \<open>node.find_all(...)\<close>: the first, and all, matching descendants.\<close>

definition find_tag :: "(node \<Rightarrow> bool) \<Rightarrow> node \<Rightarrow> node option" where
  "find_tag P n = List.find P (descendants n)"

definition find_all :: "(node \<Rightarrow> bool) \<Rightarrow> node \<Rightarrow> node list" where
  "find_all P n = filter P (descendants n)"

text \<open>
  \<open>tag.get_text(strip=True)\<close>: the strings below the tag, each stripped, the empty ones
  left out, joined with nothing between them.
\<close>

definition strings :: "node \<Rightarrow> string list" where
  "strings n = concat (map (\<lambda>d. case d of NavigableString s \<Rightarrow> [s] | Tag m attrs children \<Rightarrow> []) (descendants n))"

definition get_text_strip :: "node \<Rightarrow> string" where
  "get_text_strip n = concat (filter (\<lambda>s. s \<noteq> []) (map strip (strings n)))"

section \<open>The stages\<close>

text \<open>
  Sequencing inside a \<open>try\<close> block: the first exception ends the block.  The handler
  \<open>except Exception\<close> of each stage is the \<open>case\<close> on the outcome of its block.
\<close>

definition and_then :: "exn + 'a \<Rightarrow> ('a \<Rightarrow> exn + 'b) \<Rightarrow> exn + 'b" where
  "and_then r f = (case r of Inl e \<Rightarrow> Inl e | Inr x \<Rightarrow> f x)"

subsection \<open>Fetch latest SEBI entry\<close>

record entry =
  date :: string
  category :: string
  title :: string
  detail_link :: "string option"

definition find_table :: "node \<Rightarrow> node option" where
  "find_table soup =
     (case find_tag (\<lambda>n. named ''table'' n \<and> attr_is ''id'' ''sample_1'' n) soup of
        Some t \<Rightarrow> Some t
      | None \<Rightarrow> find_tag (\<lambda>n. named ''table'' n \<and> class_has ''table'' n) soup)"

text \<open>
  From \<open>date = columns[0].get_text(strip=True)\<close> to the \<open>return\<close> of the entry.
  \<open>title_tag.get_text\<close> raises when \<open>title_tag\<close> is \<open>None\<close>; the conditional of
  \<open>detail_link\<close> comes after it.
\<close>

definition row_entry :: "world \<Rightarrow> node list \<Rightarrow> exn + entry option" where
  "row_entry w columns =
     (let date' = get_text_strip (columns ! 0);
          category' = get_text_strip (columns ! 1);
          title_tag = find_tag (named ''a'') (columns ! 2)
      in and_then
           (case title_tag of
              None \<Rightarrow> Inl (AttributeError ''NoneType'' ''get_text'')
            | Some a \<Rightarrow> Inr (get_text_strip a))
           (\<lambda>title'. and_then
              (case title_tag of
                 Some a \<Rightarrow>
                   and_then (getitem a ''href'')
                     (\<lambda>href. and_then (urljoin w SEBI_URL href) (\<lambda>u. Inr (Some u)))
               | None \<Rightarrow> Inr None)
              (\<lambda>detail_link'.
                 Inr (Some \<lparr>date = date', category = category', title = title',
                             detail_link = detail_link'\<rparr>))))"

text \<open>The \<open>try\<close> block of \<open>get_latest_update\<close> from the parsed page on.\<close>

definition parse_listing :: "world \<Rightarrow> node \<Rightarrow> exn + entry option" where
  "parse_listing w soup =
     (case find_table soup of
        None \<Rightarrow> Inr None
      | Some table \<Rightarrow>
          (case find_tag (named ''tbody'') table of
             None \<Rightarrow> Inl (AttributeError ''NoneType'' ''find'')
           | Some tbody \<Rightarrow>
               (case find_tag (named ''tr'') tbody of
                  None \<Rightarrow> Inl (AttributeError ''NoneType'' ''find_all'')
                | Some first_row \<Rightarrow>
                    (let columns = find_all (named ''td'') first_row
                     in if length columns < 3 then Inr None else row_entry w columns))))"

definition get_latest_update :: "world \<Rightarrow> request list \<Rightarrow> entry option \<times> request list" where
  "get_latest_update w log =
     (case send_request w (GET SEBI_URL HEADERS 15) log of
        (r, log') \<Rightarrow>
          (case and_then r (\<lambda>resp. and_then (BeautifulSoup w (resp_text resp)) (parse_listing w)) of
             Inl e \<Rightarrow> (None, log')
           | Inr v \<Rightarrow> (v, log')))"

subsection \<open>Extract PDF link\<close>

text \<open>
  \<open>embed_tag["src"] if embed_tag and ".pdf" in embed_tag.get("src", "") else
  (iframe_tag["src"] if iframe_tag else None)\<close>.
\<close>

definition raw_url_of :: "node option \<Rightarrow> node option \<Rightarrow> exn + string option" where
  "raw_url_of embed_tag iframe_tag =
     (if (case embed_tag of
            None \<Rightarrow> False
          | Some e \<Rightarrow> py_in ''.pdf'' (case get_attr e ''src'' of None \<Rightarrow> [] | Some s \<Rightarrow> s))
      then (case embed_tag of
              Some e \<Rightarrow> and_then (getitem e ''src'') (\<lambda>s. Inr (Some s))
            | None \<Rightarrow> Inr None)
      else (case iframe_tag of
              Some f \<Rightarrow> and_then (getitem f ''src'') (\<lambda>s. Inr (Some s))
            | None \<Rightarrow> Inr None))"

text \<open>\<open>query["file"][0]\<close>.\<close>

definition first_value :: "string list \<Rightarrow> exn + string" where
  "first_value vs = (case vs of [] \<Rightarrow> Inl (IndexError ''list'') | v # rest \<Rightarrow> Inr v)"

text \<open>The \<open>try\<close> block of \<open>extract_pdf_link_from_page\<close> from the parsed page on.\<close>

definition locate_pdf :: "world \<Rightarrow> string \<Rightarrow> node \<Rightarrow> exn + string option" where
  "locate_pdf w detail_url soup =
     (let embed_tag = find_tag (\<lambda>n. named ''embed'' n \<and> attr_is ''type'' ''application/pdf'' n) soup;
          iframe_tag = find_tag (named ''iframe'') soup
      in and_then (raw_url_of embed_tag iframe_tag)
           (\<lambda>raw_url.
              case raw_url of
                None \<Rightarrow> Inr None
              | Some raw \<Rightarrow>
                  if raw = [] then Inr None
                  else and_then (urlparse_query w raw)
                         (\<lambda>q. and_then (parse_qs w q)
                            (\<lambda>query.
                               case query ''file'' of
                                 Some vs \<Rightarrow> and_then (first_value vs) (\<lambda>v. Inr (Some v))
                               | None \<Rightarrow> and_then (urljoin w detail_url raw) (\<lambda>u. Inr (Some u))))))"

definition extract_pdf_link_from_page ::
    "world \<Rightarrow> string \<Rightarrow> request list \<Rightarrow> string option \<times> request list" where
  "extract_pdf_link_from_page w detail_url log =
     (case send_request w (GET detail_url HEADERS 15) log of
        (r, log') \<Rightarrow>
          (case and_then r
                  (\<lambda>resp. and_then (BeautifulSoup w (resp_text resp)) (locate_pdf w detail_url)) of
             Inl e \<Rightarrow> (None, log')
           | Inr v \<Rightarrow> (v, log')))"

subsection \<open>Download and read PDF\<close>

definition download_pdf_bytes :: "world \<Rightarrow> string \<Rightarrow> request list \<Rightarrow> bytes option \<times> request list" where
  "download_pdf_bytes w url log =
     (case send_request w (GET url HEADERS 15) log of
        (r, log') \<Rightarrow>
          (case r of
             Inl e \<Rightarrow> (None, log')
           | Inr resp \<Rightarrow>
               if \<not> py_in ''%PDF'' (take 1024 (resp_content resp)) then (None, log')
               else (Some (resp_content resp), log')))"

text \<open>\<open>v or ""\<close> for the \<open>None\<close> or string that \<open>extract_text()\<close> returns.\<close>

definition or_empty :: "string option \<Rightarrow> string" where
  "or_empty v = (case v of None \<Rightarrow> [] | Some s \<Rightarrow> if s = [] then [] else s)"

text \<open>
  The generator \<open>p.extract_text() or "" for p in pdf.pages\<close>, consumed page by page: the
  first page whose extraction raises ends it.
\<close>

fun page_texts :: "(exn + string option) list \<Rightarrow> exn + string list" where
  "page_texts [] = Inr []"
| "page_texts (p # ps) =
     (case p of
        Inl e \<Rightarrow> Inl e
      | Inr v \<Rightarrow> (case page_texts ps of Inl e \<Rightarrow> Inl e | Inr ts \<Rightarrow> Inr (or_empty v # ts)))"

definition extract_text_from_pdf_bytes :: "world \<Rightarrow> bytes \<Rightarrow> string" where
  "extract_text_from_pdf_bytes w pdf_bytes =
     (case and_then (pdfplumber_open w pdf_bytes) page_texts of
        Inl e \<Rightarrow> []
      | Inr ts \<Rightarrow> join [LF] ts)"

subsection \<open>Optional summarizer\<close>

definition hf_request :: "world \<Rightarrow> string \<Rightarrow> string \<Rightarrow> request" where
  "hf_request w key txt =
     POST (''https://api-inference.huggingface.co/models/'' @ HF_MODEL w)
          [(''Authorization'', ''Bearer '' @ key)]
          (JObj [(''inputs'', JStr (take 2000 txt))])
          30"

text \<open>
  The value returned is a string in every branch but one: with status 200 it is whatever
  the first element of the response holds under \<open>summary_text\<close>.
\<close>

definition summarize_text :: "world \<Rightarrow> string \<Rightarrow> request list \<Rightarrow> json \<times> request list" where
  "summarize_text w txt log =
     (case HF_API_KEY w of
        None \<Rightarrow> (JStr (WARNING_SIGN @ '' No Hugging Face API key set.''), log)
      | Some key \<Rightarrow>
          if key = [] then (JStr (WARNING_SIGN @ '' No Hugging Face API key set.''), log)
          else
            (case send_request w (hf_request w key txt) log of
               (r, log') \<Rightarrow>
                 (case and_then r
                         (\<lambda>response.
                            if resp_status_code response = 200
                            then and_then (resp_json response)
                                   (\<lambda>body. and_then (subscript0 body)
                                      (\<lambda>first. dict_get first ''summary_text''
                                                 (JStr (WARNING_SIGN @ '' No summary returned.''))))
                            else Inr (JStr (WARNING_SIGN @ '' Summary failed: '' @ resp_text response))) of
                    Inl e \<Rightarrow> (JStr (WARNING_SIGN @ '' Summary error: '' @ exn_message e), log')
                  | Inr v \<Rightarrow> (v, log'))))"

subsection \<open>Telegram\<close>

definition telegram_request :: "string \<Rightarrow> string \<Rightarrow> string \<Rightarrow> request" where
  "telegram_request token chat_id message =
     POST (''https://api.telegram.org/bot'' @ token @ ''/sendMessage'')
          []
          (JObj [(''chat_id'', JStr chat_id),
                 (''text'', JStr (escape_markdown message)),
                 (''parse_mode'', JStr ''MarkdownV2''),
                 (''disable_web_page_preview'', JBool False)])
          10"

definition send_telegram :: "world \<Rightarrow> string \<Rightarrow> request list \<Rightarrow> bool \<times> request list" where
  "send_telegram w message log =
     (case (TELEGRAM_TOKEN w, TELEGRAM_CHAT_ID w) of
        (Some token, Some chat_id) \<Rightarrow>
          if token = [] \<or> chat_id = [] then (False, log)
          else
            (case send_request w (telegram_request token chat_id message) log of
               (r, log') \<Rightarrow>
                 (case r of
                    Inl e \<Rightarrow> (False, log')
                  | Inr resp \<Rightarrow> (resp_status_code resp = 200, log')))
      | _ \<Rightarrow> (False, log))"

subsection \<open>Tracking\<close>

text \<open>
  The state file is \<open>None\<close> when nothing exists at its path, else the characters it holds.
  Both functions open it in text mode with the default \<open>newline=None\<close>: on writing every
  line feed becomes \<open>os.linesep\<close>; on reading every carriage return, with the line feed
  after it if there is one, becomes one line feed.
\<close>

definition translate_on_write :: "string \<Rightarrow> string \<Rightarrow> string" where
  "translate_on_write sep s = concat (map (\<lambda>c. if c = LF then sep else [c]) s)"

fun universal_newlines :: "string \<Rightarrow> string" where
  "universal_newlines [] = []"
| "universal_newlines [c] = (if c = CR then [LF] else [c])"
| "universal_newlines (c # d # ds) =
     (if c = CR then (if d = LF then LF # universal_newlines ds
                      else LF # universal_newlines (d # ds))
      else c # universal_newlines (d # ds))"

text \<open>Neither function has a \<open>try\<close>: what the file operations raise, the function raises.\<close>

definition load_last_update :: "world \<Rightarrow> string option \<Rightarrow> exn + string option" where
  "load_last_update w file =
     (case file of
        None \<Rightarrow> Inr None
      | Some stored \<Rightarrow>
          (case read_error w of
             Some e \<Rightarrow> Inl e
           | None \<Rightarrow> Inr (Some (strip (universal_newlines stored)))))"

definition save_last_update :: "world \<Rightarrow> string \<Rightarrow> string option \<Rightarrow> (exn + unit) \<times> string option" where
  "save_last_update w t file =
     (case open_error w of
        Some e \<Rightarrow> (Inl e, file)
      | None \<Rightarrow>
          (case write_error w of
             Some e \<Rightarrow> (Inl e, Some [])
           | None \<Rightarrow> (Inr (), Some (translate_on_write (linesep w) t))))"

subsection \<open>Main\<close>

text \<open>What an f-string makes of a value.\<close>

definition py_str :: "world \<Rightarrow> json \<Rightarrow> string" where
  "py_str w v =
     (case v of
        JStr s \<Rightarrow> s
      | JNull \<Rightarrow> ''None''
      | JBool b \<Rightarrow> (if b then ''True'' else ''False'')
      | _ \<Rightarrow> repr_value w v)"

definition compose_message :: "world \<Rightarrow> entry \<Rightarrow> json \<Rightarrow> string \<Rightarrow> string" where
  "compose_message w latest summary pdf_url =
     LOUDSPEAKER @ '' *SEBI Update:* '' @ title latest @ [LF, LF]
     @ MEMO @ '' *Summary:* '' @ [LF] @ py_str w summary @ [LF, LF]
     @ LINK_SIGN @ '' [Read PDF]('' @ pdf_url @ '')'' @ [LF]
     @ CALENDAR @ '' Date: '' @ date latest @ [LF]
     @ FOLDER @ '' Category: '' @ category latest"

text \<open>
  \<open>main\<close> returns \<open>None\<close> from each of its \<open>return\<close> statements and from its end; the
  value here names the one that was reached.  What \<open>main\<close> prints is left out.  The state
  of a run is the log of its requests and the state file.  The body of \<open>main\<close> is written
  in three pieces, in the order of the source: \<open>main\<close> up to the comparison with the
  stored title, \<open>process\<close> from the test of \<open>detail_link\<close> to the test of the extracted
  text, \<open>notify\<close> from the call of the summarizer to the end.
\<close>

datatype halt =
    No_update_fetched
  | Already_processed
  | No_detail_link
  | No_pdf_url
  | No_pdf_bytes
  | No_text
  | Not_sent
  | Saved

definition notify :: "world \<Rightarrow> entry \<Rightarrow> string \<Rightarrow> string \<Rightarrow> request list \<times> string option
    \<Rightarrow> (exn + halt) \<times> request list \<times> string option" where
  "notify w latest pdf_url txt st =
     (case st of
        (log, file) \<Rightarrow>
          (case summarize_text w txt log of
             (summary, log1) \<Rightarrow>
               (case send_telegram w (compose_message w latest summary pdf_url) log1 of
                  (sent, log2) \<Rightarrow>
                    if sent
                    then (case save_last_update w (title latest) file of
                            (Inl e, file') \<Rightarrow> (Inl e, log2, file')
                          | (Inr u, file') \<Rightarrow> (Inr Saved, log2, file'))
                    else (Inr Not_sent, log2, file))))"

definition process :: "world \<Rightarrow> entry \<Rightarrow> request list \<times> string option
    \<Rightarrow> (exn + halt) \<times> request list \<times> string option" where
  "process w latest st =
     (case st of
        (log, file) \<Rightarrow>
          (case detail_link latest of
             None \<Rightarrow> (Inr No_detail_link, log, file)
           | Some link \<Rightarrow>
               if link = [] then (Inr No_detail_link, log, file)
               else
                 (case extract_pdf_link_from_page w link log of
                    (None, log1) \<Rightarrow> (Inr No_pdf_url, log1, file)
                  | (Some pdf_url, log1) \<Rightarrow>
                      if pdf_url = [] then (Inr No_pdf_url, log1, file)
                      else
                        (case download_pdf_bytes w pdf_url log1 of
                           (None, log2) \<Rightarrow> (Inr No_pdf_bytes, log2, file)
                         | (Some pdf_bytes, log2) \<Rightarrow>
                             if pdf_bytes = [] then (Inr No_pdf_bytes, log2, file)
                             else
                               (let txt = extract_text_from_pdf_bytes w pdf_bytes
                                in if txt = [] then (Inr No_text, log2, file)
                                   else notify w latest pdf_url txt (log2, file))))))"

definition main :: "world \<Rightarrow> request list \<times> string option
    \<Rightarrow> (exn + halt) \<times> request list \<times> string option" where
  "main w st =
     (case st of
        (log, file) \<Rightarrow>
          (case get_latest_update w log of
             (None, log1) \<Rightarrow> (Inr No_update_fetched, log1, file)
           | (Some latest, log1) \<Rightarrow>
               (case load_last_update w file of
                  Inl e \<Rightarrow> (Inl e, log1, file)
                | Inr last_title \<Rightarrow>
                    if last_title = Some (title latest) then (Inr Already_processed, log1, file)
                    else process w latest (log1, file))))"

text \<open>
  The process runs \<open>main()\<close> once.  An exception that leaves \<open>main\<close> ends the process with
  a traceback and exit status 1; otherwise the status is 0.
\<close>

definition exit_status :: "world \<Rightarrow> string option \<Rightarrow> int" where
  "exit_status w file = (case fst (main w ([], file)) of Inl e \<Rightarrow> 1 | Inr h \<Rightarrow> 0)"

section \<open>Observers and sample worlds\<close>

text \<open>A value is a string.\<close>

definition is_str :: "json \<Rightarrow> bool" where
  "is_str v \<longleftrightarrow> (case v of JStr s \<Rightarrow> True | _ \<Rightarrow> False)"

text \<open>A request is a post to the chat endpoint.\<close>

definition is_telegram :: "request \<Rightarrow> bool" where
  "is_telegram req \<longleftrightarrow>
     (case req of
        POST url hs payload t \<Rightarrow> prefix ''https://api.telegram.org/bot'' url
      | GET url hs t \<Rightarrow> False)"

text \<open>
  The last request of a run's log is a post to the chat endpoint that the world answered
  with status 200: what makes \<open>send_telegram\<close> return \<open>True\<close>.
\<close>

definition notification_confirmed :: "world \<Rightarrow> request list \<Rightarrow> bool" where
  "notification_confirmed w log \<longleftrightarrow>
     (case rev log of
        [] \<Rightarrow> False
      | req # before \<Rightarrow>
          is_telegram req \<and>
          (case http w (length before) req of
             Inl e \<Rightarrow> False
           | Inr resp \<Rightarrow> resp_status_code resp = 200))"

text \<open>
  A world for the scenario of the specification: the first row of the listing is
  05-Jan-2024, Circular, a title \<open>t\<close> linked to a detail page; the detail page embeds a
  viewer whose \<open>file\<close> parameter is the document; the document has two pages, the second
  without text; the summarizer and the chat endpoint answer 200.
\<close>

definition sample_listing :: "string \<Rightarrow> node" where
  "sample_listing t =
     Tag ''[document]'' []
       [Tag ''table'' [(''id'', ''sample_1'')]
          [Tag ''tbody'' []
             [Tag ''tr'' []
                [Tag ''td'' [] [NavigableString ''05-Jan-2024''],
                 Tag ''td'' [] [NavigableString ''Circular''],
                 Tag ''td'' [] [Tag ''a'' [(''href'', ''/detail.html'')] [NavigableString t]]]]]]"

definition sample_detail :: node where
  "sample_detail =
     Tag ''[document]'' []
       [Tag ''embed''
          [(''type'', ''application/pdf''),
           (''src'', ''viewer.html?file=https://example.com/doc.pdf'')] []]"

definition page_response :: "string \<Rightarrow> response" where
  "page_response markup =
     \<lparr>resp_status_code = 200, resp_text = markup, resp_content = markup,
      resp_json = Inl (Exn ''JSONDecodeError'' ''Expecting value'')\<rparr>"

definition json_response :: "int \<Rightarrow> json \<Rightarrow> response" where
  "json_response status body =
     \<lparr>resp_status_code = status, resp_text = ''{}'', resp_content = ''{}'',
      resp_json = Inr body\<rparr>"

definition sample_http :: "json \<Rightarrow> nat \<Rightarrow> request \<Rightarrow> exn + response" where
  "sample_http summary n req =
     (case req of
        GET url hs t \<Rightarrow>
          if url = SEBI_URL then Inr (page_response ''listing'')
          else if url = ''https://www.sebi.gov.in/detail.html'' then Inr (page_response ''detail'')
          else if url = ''https://example.com/doc.pdf'' then Inr (page_response ''%PDF-1.4'')
          else Inl (Exn ''ConnectionError'' ''unreachable'')
      | POST url hs payload t \<Rightarrow>
          if hs = [] then Inr (json_response 200 (JObj [(''ok'', JBool True)]))
          else Inr (json_response 200 (JArr [JObj [(''summary_text'', summary)]])))"

definition sample_world :: "string \<Rightarrow> json \<Rightarrow> world" where
  "sample_world t summary =
     \<lparr>http = sample_http summary,
      BeautifulSoup = (\<lambda>markup.
        if markup = ''listing'' then Inr (sample_listing t)
        else if markup = ''detail'' then Inr sample_detail
        else Inl (Exn ''ParserRejectedMarkup'' ''no tree'')),
      urljoin = (\<lambda>base u. Inr (''https://www.sebi.gov.in'' @ u)),
      urlparse_query = (\<lambda>u. Inr (drop 1 (dropWhile (\<lambda>c. c \<noteq> CHR ''?'') u))),
      parse_qs = (\<lambda>q. Inr (if take 5 q = ''file='' then [''file'' \<mapsto> [drop 5 q]] else Map.empty)),
      pdfplumber_open = (\<lambda>b. Inr [Inr (Some ''Page one''), Inr None]),
      repr_value = (\<lambda>v. ''...''),
      environ = [''HF_API_KEY'' \<mapsto> ''hf-key'', ''TELEGRAM_TOKEN'' \<mapsto> ''token'',
                 ''TELEGRAM_CHAT_ID'' \<mapsto> ''42''],
      linesep = [LF],
      read_error = None,
      open_error = None,
      write_error = None\<rparr>"

section \<open>The query parser of the library\<close>

text \<open>
  \<open>urllib.parse.parse_qs(qs)\<close> with its default arguments, as its documentation gives it,
  for worlds that answer as the library does.  The fields of the query are separated by
  \<open>&\<close>; a field is cut at its first \<open>=\<close> into a name and a value; a field without \<open>=\<close> and
  a field with a blank value are left out (\<open>keep_blank_values=False\<close>); in what remains
  every \<open>+\<close> becomes a space and the percent-escapes are decoded, which is the parameter
  \<open>unquote\<close>.  The result maps a name to the values of its fields, in their order.
\<close>

text \<open>\<open>s.split(sep)\<close> for a separator of one character.\<close>

fun split_at :: "char \<Rightarrow> string \<Rightarrow> string list" where
  "split_at sep [] = [[]]"
| "split_at sep (c # cs) =
     (if c = sep then [] # split_at sep cs
      else (case split_at sep cs of [] \<Rightarrow> [[c]] | f # fs \<Rightarrow> (c # f) # fs))"

text \<open>\<open>nv.split('=', 1)\<close> when it has two parts.\<close>

definition field_of :: "string \<Rightarrow> (string \<times> string) option" where
  "field_of nv =
     (if CHR ''='' \<in> set nv
      then Some (takeWhile (\<lambda>c. c \<noteq> CHR ''='') nv, tl (dropWhile (\<lambda>c. c \<noteq> CHR ''='') nv))
      else None)"

text \<open>The parameters a query carries, as written: every field that has a \<open>=\<close>.\<close>

definition query_fields :: "string \<Rightarrow> (string \<times> string) list" where
  "query_fields qs =
     concat (map (\<lambda>nv. case field_of nv of None \<Rightarrow> [] | Some f \<Rightarrow> [f]) (split_at (CHR ''&'') qs))"

definition plus_to_space :: "string \<Rightarrow> string" where
  "plus_to_space s = map (\<lambda>c. if c = CHR ''+'' then CHR '' '' else c) s"

definition parse_qsl :: "(string \<Rightarrow> string) \<Rightarrow> string \<Rightarrow> (string \<times> string) list" where
  "parse_qsl unquote qs =
     concat (map (\<lambda>f. if snd f = [] then []
                       else [(unquote (plus_to_space (fst f)), unquote (plus_to_space (snd f)))])
               (query_fields qs))"

definition parse_qs_default :: "(string \<Rightarrow> string) \<Rightarrow> string \<Rightarrow> (string \<rightharpoonup> string list)" where
  "parse_qs_default unquote qs key =
     (case filter (\<lambda>p. fst p = key) (parse_qsl unquote qs) of
        [] \<Rightarrow> None
      | p # ps \<Rightarrow> Some (map snd (p # ps)))"

section \<open>Evaluation\<close>

text \<open>The definitions that evaluating a run on a sample world unfolds.\<close>

lemmas sample_defs =
  sample_world_def sample_http_def sample_listing_def sample_detail_def
  page_response_def json_response_def

lemmas stage_defs =
  main_def process_def notify_def get_latest_update_def parse_listing_def row_entry_def
  find_table_def extract_pdf_link_from_page_def locate_pdf_def raw_url_of_def first_value_def
  download_pdf_bytes_def extract_text_from_pdf_bytes_def summarize_text_def hf_request_def
  send_telegram_def telegram_request_def load_last_update_def save_last_update_def
  send_request_def and_then_def compose_message_def py_str_def
  HF_API_KEY_def HF_MODEL_def TELEGRAM_TOKEN_def TELEGRAM_CHAT_ID_def SEBI_URL_def HEADERS_def
  find_tag_def find_all_def named_def attr_is_def class_has_def get_attr_def getitem_def
  get_text_strip_def strings_def strip_def isspace_def or_empty_def
  translate_on_write_def CR_def LF_def

section \<open>Stripping and newline translation\<close>

subsection \<open>Stripped strings\<close>

lemma strip_eq_self:
  assumes "s = [] \<or> (\<not> isspace (hd s) \<and> \<not> isspace (last s))"
  shows "strip s = s"
proof (cases "s = []")
  case True
  then show ?thesis by (simp add: strip_def)
next
  case False
  with assms have h: "\<not> isspace (hd s)" and l: "\<not> isspace (last s)" by simp_all
  from False h have "dropWhile isspace s = s"
    by (simp add: dropWhile_eq_self_iff)
  moreover from False l have "dropWhile isspace (rev s) = rev s"
    by (simp add: dropWhile_eq_self_iff hd_rev)
  ultimately show ?thesis by (simp add: strip_def)
qed

lemma last_dropWhile: "dropWhile P xs \<noteq> [] \<Longrightarrow> last (dropWhile P xs) = last xs"
  by (induction xs) (auto split: if_splits)

lemma strip_ends:
  assumes "strip s \<noteq> []"
  shows "\<not> isspace (hd (strip s)) \<and> \<not> isspace (last (strip s))"
proof -
  let ?d = "dropWhile isspace s"
  let ?r = "dropWhile isspace (rev ?d)"
  have s: "strip s = rev ?r" by (simp add: strip_def)
  with assms have r: "?r \<noteq> []" by simp
  have "?d = [] \<Longrightarrow> ?r = []" by (simp del: dropWhile_eq_Nil_conv)
  with r have d: "?d \<noteq> []" by blast
  have "\<not> isspace (hd ?r)" using r by (rule hd_dropWhile)
  then have 1: "\<not> isspace (last (strip s))" using r by (simp add: s last_rev)
  have "last ?r = last (rev ?d)" using r by (rule last_dropWhile)
  also have "\<dots> = hd ?d" using d by (simp add: last_rev)
  finally have "hd (strip s) = hd ?d" using r by (simp add: s hd_rev)
  moreover have "\<not> isspace (hd ?d)" using d by (rule hd_dropWhile)
  ultimately show ?thesis using 1 by simp
qed

lemma concat_ends:
  assumes "\<forall>p \<in> set ps. p \<noteq> [] \<and> \<not> isspace (hd p) \<and> \<not> isspace (last p)"
  shows "concat ps = [] \<or> (\<not> isspace (hd (concat ps)) \<and> \<not> isspace (last (concat ps)))"
  using assms
proof (induction ps)
  case Nil
  then show ?case by simp
next
  case (Cons p ps)
  then have p: "p \<noteq> []" "\<not> isspace (hd p)" "\<not> isspace (last p)" by simp_all
  from Cons have ih: "concat ps = [] \<or> (\<not> isspace (hd (concat ps)) \<and> \<not> isspace (last (concat ps)))"
    by simp
  show ?case
  proof (cases "concat ps = []")
    case True
    with p show ?thesis by simp
  next
    case False
    with ih have e: "\<not> isspace (last (concat ps))" by blast
    have "hd (concat (p # ps)) = hd p" using p by simp
    moreover have "last (concat (p # ps)) = last (concat ps)"
      unfolding concat.simps using False by (rule last_appendR)
    ultimately show ?thesis using p e by simp
  qed
qed

lemma strip_get_text_strip: "strip (get_text_strip n) = get_text_strip n"
proof -
  have "\<forall>p \<in> set (filter (\<lambda>s. s \<noteq> []) (map strip (strings n))).
          p \<noteq> [] \<and> \<not> isspace (hd p) \<and> \<not> isspace (last p)"
    using strip_ends by auto
  then show ?thesis
    unfolding get_text_strip_def by (intro strip_eq_self concat_ends)
qed

subsection \<open>Newline translation\<close>

lemma translate_on_write_LF: "translate_on_write [LF] s = s"
  by (induction s) (simp_all add: translate_on_write_def)

lemma universal_newlines_Cons:
  "CR \<noteq> c \<Longrightarrow> universal_newlines (c # cs) = c # universal_newlines cs"
  by (cases cs) auto

lemma universal_newlines_no_CR: "CR \<notin> set s \<Longrightarrow> universal_newlines s = s"
  by (induction s) (simp_all add: universal_newlines_Cons)

lemma universal_newlines_CRLF:
  "CR \<notin> set s \<Longrightarrow> universal_newlines (translate_on_write [CR, LF] s) = s"
proof (induction s)
  case Nil
  then show ?case by (simp add: translate_on_write_def)
next
  case (Cons c cs)
  then have ih: "universal_newlines (translate_on_write [CR, LF] cs) = cs" and c: "CR \<noteq> c"
    by auto
  have t: "translate_on_write [CR, LF] (c # cs) =
             (if c = LF then [CR, LF] else [c]) @ translate_on_write [CR, LF] cs"
    by (simp add: translate_on_write_def)
  show ?case
  proof (cases "c = LF")
    case True
    then show ?thesis unfolding t using ih by simp
  next
    case False
    then show ?thesis unfolding t using ih c by (simp add: universal_newlines_Cons)
  qed
qed

lemma load_after_save:
  assumes "CR \<notin> set t" and "linesep w = [LF] \<or> linesep w = [CR, LF]"
    and "open_error w = None" and "write_error w = None" and "read_error w' = None"
  shows "save_last_update w t file = (Inr (), Some (translate_on_write (linesep w) t))
       \<and> load_last_update w' (Some (translate_on_write (linesep w) t)) = Inr (Some (strip t))"
  using assms
  by (auto simp add: save_last_update_def load_last_update_def translate_on_write_LF
      universal_newlines_no_CR universal_newlines_CRLF)

section \<open>Properties of \<open>escape_markdown\<close>\<close>

lemma escape_markdown_Nil: "escape_markdown [] = []"
  by (simp add: escape_markdown_def)

lemma escape_markdown_Cons:
  "escape_markdown (c # cs) =
     (if reserved c then backslash # c # escape_markdown cs else c # escape_markdown cs)"
  by (simp add: escape_markdown_def reserved_def)

lemma escape_markdown_append:
  "escape_markdown (xs @ ys) = escape_markdown xs @ escape_markdown ys"
  by (induction xs) (simp_all add: escape_markdown_Nil escape_markdown_Cons)

lemma length_escape_markdown:
  "length (escape_markdown xs) = length xs + length (filter reserved xs)"
  by (induction xs) (simp_all add: escape_markdown_Nil escape_markdown_Cons)

lemma escape_markdown_eq_Nil: "escape_markdown xs = [] \<longleftrightarrow> xs = []"
  by (cases xs) (simp_all add: escape_markdown_Nil escape_markdown_Cons)

lemma last_escape_markdown: "xs \<noteq> [] \<Longrightarrow> last (escape_markdown xs) = last xs"
proof (induction xs)
  case Nil
  then show ?case by simp
next
  case (Cons c cs)
  show ?case
  proof (cases "cs = []")
    case True
    then show ?thesis by (simp add: escape_markdown_Nil escape_markdown_Cons)
  next
    case False
    with Cons show ?thesis
      by (simp add: escape_markdown_Cons escape_markdown_eq_Nil)
  qed
qed

lemma escape_markdown_split:
  assumes "i < length text"
  shows "escape_markdown text =
           escape_markdown (take i text) @ escape_markdown [text ! i]
             @ escape_markdown (drop (Suc i) text)"
proof -
  have "text = take i text @ [text ! i] @ drop (Suc i) text"
    using assms by (simp add: id_take_nth_drop [symmetric])
  then have "escape_markdown text =
      escape_markdown (take i text @ [text ! i] @ drop (Suc i) text)"
    by simp
  then show ?thesis
    by (simp only: escape_markdown_append)
qed

lemma out_pos_unfold:
  assumes "i < length text"
  shows "out_pos text i =
           length (escape_markdown (take i text)) + (if reserved (text ! i) then 1 else 0)"
  using assms
  by (simp add: out_pos_def take_Suc_conv_app_nth length_escape_markdown)

lemma escape_markdown_nth_out_pos:
  assumes "i < length text"
  shows "escape_markdown text ! out_pos text i = text ! i"
  by (subst escape_markdown_split [OF assms])
     (simp add: out_pos_unfold [OF assms] nth_append escape_markdown_Cons escape_markdown_Nil)

lemma escape_markdown_nth_before:
  assumes "i < length text" and "reserved (text ! i)"
  shows "0 < out_pos text i \<and> escape_markdown text ! (out_pos text i - 1) = backslash"
  using assms(2)
  by (subst escape_markdown_split [OF assms(1)])
     (simp add: out_pos_unfold [OF assms(1)] nth_append escape_markdown_Cons
        escape_markdown_Nil)

lemma escape_markdown_nth_before2:
  assumes "i < length text" and "reserved (text ! i)" and "0 < i"
  shows "escape_markdown text ! (out_pos text i - 2) = text ! (i - 1)"
proof -
  let ?pre = "escape_markdown (take i text)"
  have ne: "take i text \<noteq> []"
    using assms by auto
  then have pre_ne: "?pre \<noteq> []"
    by (simp add: escape_markdown_eq_Nil)
  have "out_pos text i - 2 = length ?pre - 1"
    using assms by (simp add: out_pos_unfold)
  moreover have "length ?pre - 1 < length ?pre"
    using pre_ne by simp
  ultimately have "escape_markdown text ! (out_pos text i - 2) = ?pre ! (length ?pre - 1)"
    by (subst escape_markdown_split [OF assms(1)]) (simp add: nth_append)
  also have "\<dots> = last ?pre"
    using pre_ne by (simp add: last_conv_nth)
  also have "\<dots> = last (take i text)"
    using ne by (rule last_escape_markdown)
  also have "\<dots> = text ! (i - 1)"
    using assms ne by (simp add: last_conv_nth)
  finally show ?thesis .
qed

text \<open>
  Claim C3, as amended.  For every input and every index \<open>i\<close> of it, the character at
  \<open>i\<close> appears unaltered in the output at \<open>out_pos text i\<close>; the output is longer than the
  input by one character for each reserved character; a reserved character has a
  backslash immediately before it in the output, and exactly one when it is the first
  character of the input or the character before it in the input is not a backslash.
  Backslashes of the input are characters outside the reserved set and are copied.
\<close>

theorem escape_markdown_inserts_one_backslash:
  assumes "i < length text"
  shows "escape_markdown text ! out_pos text i = text ! i
       \<and> length (escape_markdown text) = length text + length (filter reserved text)
       \<and> (reserved (text ! i) \<longrightarrow>
            0 < out_pos text i
          \<and> escape_markdown text ! (out_pos text i - 1) = backslash
          \<and> ((i = 0 \<or> text ! (i - 1) \<noteq> backslash) \<longrightarrow>
                one_backslash_before (escape_markdown text) (out_pos text i)))"
proof (intro conjI impI)
  show "escape_markdown text ! out_pos text i = text ! i"
    using assms by (rule escape_markdown_nth_out_pos)
  show "length (escape_markdown text) = length text + length (filter reserved text)"
    by (rule length_escape_markdown)
next
  assume r: "reserved (text ! i)"
  from escape_markdown_nth_before [OF assms r]
  show "0 < out_pos text i"
    and "escape_markdown text ! (out_pos text i - 1) = backslash"
    by simp_all
next
  assume r: "reserved (text ! i)" and b: "i = 0 \<or> text ! (i - 1) \<noteq> backslash"
  note before = escape_markdown_nth_before [OF assms r]
  show "one_backslash_before (escape_markdown text) (out_pos text i)"
  proof (cases "i = 0")
    case True
    then have "out_pos text i = 1"
      using assms r by (simp add: out_pos_unfold escape_markdown_Nil)
    with before show ?thesis
      by (simp add: one_backslash_before_def)
  next
    case False
    with b have "text ! (i - 1) \<noteq> backslash" by simp
    moreover from False have "0 < i" by simp
    ultimately have "escape_markdown text ! (out_pos text i - 2) \<noteq> backslash"
      using escape_markdown_nth_before2 [OF assms r] by simp
    with before show ?thesis
      by (simp add: one_backslash_before_def)
  qed
qed

theorem escape_markdown_inserts_one_backslash_witness:
  "escape_markdown ''a.b'' ! out_pos ''a.b'' 1 = ''a.b'' ! 1
   \<and> length (escape_markdown ''a.b'') = 4
   \<and> reserved (''a.b'' ! 1)
   \<and> one_backslash_before (escape_markdown ''a.b'') (out_pos ''a.b'' 1)
   \<and> escape_markdown ''a.b'' = [CHR ''a'', backslash, CHR ''.'', CHR ''b'']"
  using escape_markdown_inserts_one_backslash [of 1 "''a.b''"]
  by (simp add: escape_markdown_def escape_chars_def reserved_def out_pos_def backslash_def)

text \<open>
  Claim C3, as stated, fails where the input has a backslash immediately before a
  reserved character: the backslash is copied and one more is inserted, so the reserved
  character has two backslashes before it in the output.
\<close>

theorem escape_markdown_backslash_counterexample:
  "reserved ([backslash, CHR ''_''] ! 1)
   \<and> escape_markdown [backslash, CHR ''_''] = [backslash, backslash, CHR ''_'']
   \<and> \<not> one_backslash_before (escape_markdown [backslash, CHR ''_''])
          (out_pos [backslash, CHR ''_''] 1)"
  by (simp add: escape_markdown_def escape_chars_def reserved_def out_pos_def
      one_backslash_before_def backslash_def)

section \<open>Properties of the summarizer\<close>

lemma take_2000_cases:
  "prefix (take 2000 s) s"
  "2000 < length s \<Longrightarrow> length (take 2000 s) = 2000"
  "length s \<le> 2000 \<Longrightarrow> take 2000 s = s"
  by (simp_all add: take_is_prefix)

text \<open>
  Claim C6.  With a credential configured, the summarizer makes one request, a post whose
  payload is \<open>{"inputs": s}\<close> where \<open>s\<close> is the beginning of the text: its first 2000
  characters when the text is longer than 2000 characters, the text itself otherwise.
\<close>

theorem summarize_text_submits_first_2000:
  assumes "HF_API_KEY w = Some key" and "key \<noteq> []"
  shows "\<exists>url hs s t.
           snd (summarize_text w txt log) = log @ [POST url hs (JObj [(''inputs'', JStr s)]) t]
         \<and> prefix s txt
         \<and> (2000 < length txt \<longrightarrow> length s = 2000)
         \<and> (length txt \<le> 2000 \<longrightarrow> s = txt)"
proof -
  have "snd (summarize_text w txt log) = log @ [hf_request w key txt]"
    using assms
    by (simp add: summarize_text_def send_request_def split: sum.splits)
  then show ?thesis
    using take_2000_cases [of "txt"] unfolding hf_request_def by blast
qed

theorem summarize_text_submits_first_2000_witness:
  "HF_API_KEY (sample_world ''T'' JNull) = Some ''hf-key'' \<and> ''hf-key'' \<noteq> []
   \<and> 2000 < length (replicate 2001 (CHR ''a''))
   \<and> (\<exists>url hs s t.
        snd (summarize_text (sample_world ''T'' JNull) (replicate 2001 (CHR ''a'')) [])
          = [] @ [POST url hs (JObj [(''inputs'', JStr s)]) t]
      \<and> length s = 2000)
   \<and> (\<exists>url hs t.
        snd (summarize_text (sample_world ''T'' JNull) ''short'' [])
          = [] @ [POST url hs (JObj [(''inputs'', JStr ''short'')]) t])"
proof -
  have k: "HF_API_KEY (sample_world ''T'' JNull) = Some ''hf-key''"
    by (simp add: HF_API_KEY_def sample_world_def)
  have ne: "''hf-key'' \<noteq> []" by simp
  from summarize_text_submits_first_2000 [OF k ne, of "replicate 2001 (CHR ''a'')" "[]"]
  have a: "\<exists>url hs s t.
        snd (summarize_text (sample_world ''T'' JNull) (replicate 2001 (CHR ''a'')) [])
          = [] @ [POST url hs (JObj [(''inputs'', JStr s)]) t]
      \<and> length s = 2000"
    by auto
  from summarize_text_submits_first_2000 [OF k ne, of "''short''" "[]"]
  have b: "\<exists>url hs t.
        snd (summarize_text (sample_world ''T'' JNull) ''short'' [])
          = [] @ [POST url hs (JObj [(''inputs'', JStr ''short'')]) t]"
    by auto
  from k ne a b show ?thesis by simp
qed

text \<open>
  Claim C5, as amended.  The summarizer has no branch that raises: its result is a value in
  every case.  Without a credential (none, or an empty one) it returns the fixed diagnostic
  string and makes no request.  With one, a transport exception gives the diagnostic that
  ends with the exception's message, a status other than 200 the diagnostic that ends with
  the response body.  The result is a string in every case but one: when the endpoint
  answers 200 and the first element of its JSON body is an object with a \<open>summary_text\<close>
  item, the result is that item's value, whatever its type.
\<close>

theorem summarize_text_outcomes:
  "(falsy (HF_API_KEY w) \<longrightarrow>
      summarize_text w txt log = (JStr (WARNING_SIGN @ '' No Hugging Face API key set.''), log))
 \<and> (HF_API_KEY w = Some key \<and> key \<noteq> [] \<longrightarrow>
      (http w (length log) (hf_request w key txt) = Inl e \<longrightarrow>
         fst (summarize_text w txt log) = JStr (WARNING_SIGN @ '' Summary error: '' @ exn_message e))
    \<and> (http w (length log) (hf_request w key txt) = Inr resp \<and> resp_status_code resp \<noteq> 200 \<longrightarrow>
         fst (summarize_text w txt log) = JStr (WARNING_SIGN @ '' Summary failed: '' @ resp_text resp)))
 \<and> (is_str (fst (summarize_text w txt log))
    \<or> (\<exists>k r body kvs.
          HF_API_KEY w = Some k
        \<and> http w (length log) (hf_request w k txt) = Inr r
        \<and> resp_status_code r = 200
        \<and> resp_json r = Inr body
        \<and> subscript0 body = Inr (JObj kvs)
        \<and> map_of kvs ''summary_text'' = Some (fst (summarize_text w txt log))))"
proof (intro conjI impI)
  assume "falsy (HF_API_KEY w)"
  then show "summarize_text w txt log = (JStr (WARNING_SIGN @ '' No Hugging Face API key set.''), log)"
    by (simp add: summarize_text_def falsy_def split: option.splits)
next
  assume "HF_API_KEY w = Some key \<and> key \<noteq> []"
    and "http w (length log) (hf_request w key txt) = Inl e"
  then show "fst (summarize_text w txt log) = JStr (WARNING_SIGN @ '' Summary error: '' @ exn_message e)"
    by (simp add: summarize_text_def send_request_def and_then_def)
next
  assume "HF_API_KEY w = Some key \<and> key \<noteq> []"
    and "http w (length log) (hf_request w key txt) = Inr resp \<and> resp_status_code resp \<noteq> 200"
  then show "fst (summarize_text w txt log) = JStr (WARNING_SIGN @ '' Summary failed: '' @ resp_text resp)"
    by (simp add: summarize_text_def send_request_def and_then_def)
next
  show "is_str (fst (summarize_text w txt log))
    \<or> (\<exists>k r body kvs.
          HF_API_KEY w = Some k
        \<and> http w (length log) (hf_request w k txt) = Inr r
        \<and> resp_status_code r = 200
        \<and> resp_json r = Inr body
        \<and> subscript0 body = Inr (JObj kvs)
        \<and> map_of kvs ''summary_text'' = Some (fst (summarize_text w txt log)))"
  proof (cases "HF_API_KEY w")
    case None
    then show ?thesis by (simp add: summarize_text_def is_str_def)
  next
    case (Some k)
    show ?thesis
    proof (cases "k = []")
      case True
      with Some show ?thesis by (simp add: summarize_text_def is_str_def)
    next
      case False
      show ?thesis
      proof (cases "http w (length log) (hf_request w k txt)")
        case (Inl e)
        with Some False show ?thesis
          by (simp add: summarize_text_def send_request_def and_then_def is_str_def)
      next
        case (Inr r)
        show ?thesis
        proof (cases "resp_status_code r = 200")
          case False
          with Some \<open>k \<noteq> []\<close> Inr show ?thesis
            by (simp add: summarize_text_def send_request_def and_then_def is_str_def)
        next
          case True
          show ?thesis
          proof (cases "resp_json r")
            case (Inl e)
            with Some \<open>k \<noteq> []\<close> Inr True show ?thesis
              by (simp add: summarize_text_def send_request_def and_then_def is_str_def)
          next
            case body: (Inr body)
            show ?thesis
            proof (cases "subscript0 body")
              case (Inl e)
              with Some \<open>k \<noteq> []\<close> Inr True body show ?thesis
                by (simp add: summarize_text_def send_request_def and_then_def is_str_def)
            next
              case first: (Inr first)
              show ?thesis
              proof (cases first)
                case (JObj kvs)
                show ?thesis
                proof (cases "map_of kvs ''summary_text''")
                  case None
                  with Some \<open>k \<noteq> []\<close> Inr True body first JObj show ?thesis
                    by (simp add: summarize_text_def send_request_def and_then_def is_str_def)
                next
                  case (Some v)
                  with \<open>HF_API_KEY w = Some k\<close> \<open>k \<noteq> []\<close> Inr True body first JObj
                  have "fst (summarize_text w txt log) = v"
                    by (simp add: summarize_text_def send_request_def and_then_def)
                  with \<open>HF_API_KEY w = Some k\<close> Inr True body first JObj Some show ?thesis
                    by blast
                qed
              qed (use Some \<open>k \<noteq> []\<close> Inr True body first in
                    \<open>simp_all add: summarize_text_def send_request_def and_then_def is_str_def\<close>)
            qed
          qed
        qed
      qed
    qed
  qed
qed

theorem summarize_text_outcomes_witness:
  "falsy (HF_API_KEY ((sample_world ''T'' JNull)\<lparr>environ := Map.empty\<rparr>))
   \<and> summarize_text ((sample_world ''T'' JNull)\<lparr>environ := Map.empty\<rparr>) ''Page one'' []
       = (JStr (WARNING_SIGN @ '' No Hugging Face API key set.''), [])
   \<and> HF_API_KEY (sample_world ''T'' JNull) = Some ''hf-key''
   \<and> fst (summarize_text
         ((sample_world ''T'' JNull)\<lparr>http := (\<lambda>n req. Inl (Exn ''ConnectTimeout'' ''timed out''))\<rparr>)
         ''Page one'' [])
       = JStr (WARNING_SIGN @ '' Summary error: timed out'')
   \<and> fst (summarize_text
         ((sample_world ''T'' JNull)\<lparr>http := (\<lambda>n req. Inr (json_response 503 JNull))\<rparr>)
         ''Page one'' [])
       = JStr (WARNING_SIGN @ '' Summary failed: {}'')
   \<and> is_str (fst (summarize_text (sample_world ''T'' (JStr ''A summary'')) ''Page one'' []))"
  using
    summarize_text_outcomes [of "(sample_world ''T'' JNull)\<lparr>environ := Map.empty\<rparr>"
      "''Page one''" "[]"]
    summarize_text_outcomes
      [of "(sample_world ''T'' JNull)\<lparr>http := (\<lambda>n req. Inl (Exn ''ConnectTimeout'' ''timed out''))\<rparr>"
        "''Page one''" "[]" "''hf-key''" "Exn ''ConnectTimeout'' ''timed out''"]
    summarize_text_outcomes
      [of "(sample_world ''T'' JNull)\<lparr>http := (\<lambda>n req. Inr (json_response 503 JNull))\<rparr>"
        "''Page one''" "[]" "''hf-key''" _ "json_response 503 JNull"]
  by (simp add: summarize_text_def send_request_def and_then_def is_str_def falsy_def
      sample_world_def sample_http_def hf_request_def HF_API_KEY_def json_response_def)

text \<open>
  Claim C5, as stated, fails for the response body \<open>[{"summary_text": null}]\<close> with
  status 200: the summarizer returns \<open>None\<close>, which is not a string.
\<close>

theorem summarize_text_null_summary_counterexample:
  "\<not> is_str (fst (summarize_text (sample_world ''T'' JNull) ''Page one'' []))"
  by (simp add: summarize_text_def send_request_def and_then_def is_str_def
      sample_world_def sample_http_def hf_request_def HF_API_KEY_def json_response_def)

section \<open>Properties of the text extractor\<close>

lemma page_texts_all_ok: "page_texts (map Inr vs) = Inr (map or_empty vs)"
  by (induction vs) simp_all

lemma page_texts_failing_page: "page_texts (map Inr vs @ Inl e # rest) = Inl e"
  by (induction vs) simp_all

lemma process_after_download:
  assumes "detail_link latest = Some link" and "link \<noteq> []"
    and "extract_pdf_link_from_page w link log = (Some u, l1)" and "u \<noteq> []"
    and "download_pdf_bytes w u l1 = (Some pb, l2)" and "pb \<noteq> []"
  shows "process w latest (log, file) =
           (if extract_text_from_pdf_bytes w pb = [] then (Inr No_text, l2, file)
            else notify w latest u (extract_text_from_pdf_bytes w pb) (l2, file))"
  using assms by (simp add: process_def Let_def)

lemma join_Cons: "join sep (p # ps) = p @ concat (map (\<lambda>q. sep @ q) ps)"
  by (induction ps arbitrary: p) simp_all

lemma join_line_feed:
  "join [LF] (map or_empty vs) =
     (case vs of [] \<Rightarrow> [] | v # rest \<Rightarrow> or_empty v @ concat (map (\<lambda>p. LF # or_empty p) rest))"
  by (cases vs) (simp_all add: join_Cons comp_def)

text \<open>
  Claim C8.  When the document opens and every page's extraction returns, the result is the
  pages' texts joined with line feeds: nothing for a document without pages, else the text
  of the first page followed, for every later page in order, by one line feed and that
  page's text; a page that yields \<open>None\<close> (or an empty text) contributes the empty string.
  When opening raises, or the extraction of some page raises, the result is the empty
  string, not \<open>None\<close>.  After a successful download \<open>main\<close> tests the text and nothing
  else: it returns at once when the text is empty and goes on to the summarizer and the
  notifier when it is not.
\<close>

theorem extract_text_from_pdf_bytes_pages:
  "(pdfplumber_open w b = Inr (map Inr vs) \<longrightarrow>
      extract_text_from_pdf_bytes w b =
        (case vs of
           [] \<Rightarrow> []
         | v # rest \<Rightarrow> or_empty v @ concat (map (\<lambda>p. LF # or_empty p) rest)))
 \<and> or_empty None = [] \<and> or_empty (Some s) = s
 \<and> (pdfplumber_open w b = Inl e \<longrightarrow> extract_text_from_pdf_bytes w b = [])
 \<and> (pdfplumber_open w b = Inr (map Inr vs @ Inl e # rest) \<longrightarrow>
      extract_text_from_pdf_bytes w b = [])
 \<and> (detail_link latest = Some link \<and> link \<noteq> []
    \<and> extract_pdf_link_from_page w link log = (Some u, l1) \<and> u \<noteq> []
    \<and> download_pdf_bytes w u l1 = (Some b, l2) \<and> b \<noteq> [] \<longrightarrow>
      process w latest (log, file) =
        (if extract_text_from_pdf_bytes w b = [] then (Inr No_text, l2, file)
         else notify w latest u (extract_text_from_pdf_bytes w b) (l2, file)))"
proof (intro conjI impI)
  assume "pdfplumber_open w b = Inr (map Inr vs)"
  then have "extract_text_from_pdf_bytes w b = join [LF] (map or_empty vs)"
    by (simp add: extract_text_from_pdf_bytes_def and_then_def page_texts_all_ok)
  then show "extract_text_from_pdf_bytes w b =
      (case vs of [] \<Rightarrow> [] | v # rest \<Rightarrow> or_empty v @ concat (map (\<lambda>p. LF # or_empty p) rest))"
    by (simp only: join_line_feed)
next
  show "or_empty None = []" and "or_empty (Some s) = s"
    by (simp_all add: or_empty_def)
next
  assume "pdfplumber_open w b = Inl e"
  then show "extract_text_from_pdf_bytes w b = []"
    by (simp add: extract_text_from_pdf_bytes_def and_then_def)
next
  assume "pdfplumber_open w b = Inr (map Inr vs @ Inl e # rest)"
  then show "extract_text_from_pdf_bytes w b = []"
    by (simp add: extract_text_from_pdf_bytes_def and_then_def page_texts_failing_page)
next
  assume "detail_link latest = Some link \<and> link \<noteq> []
    \<and> extract_pdf_link_from_page w link log = (Some u, l1) \<and> u \<noteq> []
    \<and> download_pdf_bytes w u l1 = (Some b, l2) \<and> b \<noteq> []"
  then show "process w latest (log, file) =
        (if extract_text_from_pdf_bytes w b = [] then (Inr No_text, l2, file)
         else notify w latest u (extract_text_from_pdf_bytes w b) (l2, file))"
    by (simp add: process_after_download)
qed

theorem extract_text_from_pdf_bytes_pages_witness:
  "pdfplumber_open (sample_world ''T'' JNull) ''%PDF-1.4'' = Inr (map Inr [Some ''Page one'', None])
   \<and> extract_text_from_pdf_bytes (sample_world ''T'' JNull) ''%PDF-1.4'' = ''Page one'' @ [LF]
   \<and> extract_text_from_pdf_bytes
        ((sample_world ''T'' JNull)\<lparr>pdfplumber_open :=
           (\<lambda>b. Inr (map Inr [Some ''Page one'', None, Some ''Page three'', Some [], Some ''Page five'']))\<rparr>)
        ''%PDF-1.4''
       = ''Page one'' @ [LF] @ [LF] @ ''Page three'' @ [LF] @ [LF] @ ''Page five''
   \<and> extract_text_from_pdf_bytes
        ((sample_world ''T'' JNull)\<lparr>pdfplumber_open := (\<lambda>b. Inr (map Inr []))\<rparr>)
        ''%PDF-1.4'' = []
   \<and> extract_text_from_pdf_bytes
        ((sample_world ''T'' JNull)\<lparr>pdfplumber_open := (\<lambda>b. Inl (Exn ''PDFSyntaxError'' ''No /Root object''))\<rparr>)
        ''%PDF-1.4'' = []
   \<and> extract_text_from_pdf_bytes
        ((sample_world ''T'' JNull)\<lparr>pdfplumber_open :=
           (\<lambda>b. Inr (map Inr [Some ''Page one''] @ Inl (Exn ''PSEOF'' ''Unexpected EOF'') # []))\<rparr>)
        ''%PDF-1.4'' = []
   \<and> process
        ((sample_world ''T'' JNull)\<lparr>pdfplumber_open := (\<lambda>b. Inl (Exn ''PDFSyntaxError'' ''No /Root object''))\<rparr>)
        \<lparr>date = ''05-Jan-2024'', category = ''Circular'', title = ''T'',
         detail_link = Some ''https://www.sebi.gov.in/detail.html''\<rparr> ([], None)
      = (Inr No_text,
         [GET ''https://www.sebi.gov.in/detail.html'' HEADERS 15,
          GET ''https://example.com/doc.pdf'' HEADERS 15], None)"
proof -
  let ?w = "sample_world ''T'' JNull"
  let ?five = "?w\<lparr>pdfplumber_open :=
      (\<lambda>b. Inr (map Inr [Some ''Page one'', None, Some ''Page three'', Some [], Some ''Page five'']))\<rparr>"
  let ?none = "?w\<lparr>pdfplumber_open := (\<lambda>b. Inr (map Inr []))\<rparr>"
  let ?bad = "?w\<lparr>pdfplumber_open := (\<lambda>b. Inl (Exn ''PDFSyntaxError'' ''No /Root object''))\<rparr>"
  let ?eof = "?w\<lparr>pdfplumber_open :=
      (\<lambda>b. Inr (map Inr [Some ''Page one''] @ Inl (Exn ''PSEOF'' ''Unexpected EOF'') # []))\<rparr>"
  let ?latest = "\<lparr>date = ''05-Jan-2024'', category = ''Circular'', title = ''T'',
      detail_link = Some ''https://www.sebi.gov.in/detail.html''\<rparr>"
  let ?l1 = "[GET ''https://www.sebi.gov.in/detail.html'' HEADERS 15]"
  let ?l2 = "[GET ''https://www.sebi.gov.in/detail.html'' HEADERS 15,
             GET ''https://example.com/doc.pdf'' HEADERS 15]"
  have o: "pdfplumber_open ?w ''%PDF-1.4'' = Inr (map Inr [Some ''Page one'', None])"
    by (simp add: sample_world_def)
  from extract_text_from_pdf_bytes_pages
      [where w = ?w and b = "''%PDF-1.4''" and vs = "[Some ''Page one'', None]"] o
  have 1: "extract_text_from_pdf_bytes ?w ''%PDF-1.4'' = ''Page one'' @ [LF]"
    by (simp add: or_empty_def)
  from extract_text_from_pdf_bytes_pages
      [where w = ?five and b = "''%PDF-1.4''"
         and vs = "[Some ''Page one'', None, Some ''Page three'', Some [], Some ''Page five'']"]
  have 2: "extract_text_from_pdf_bytes ?five ''%PDF-1.4''
      = ''Page one'' @ [LF] @ [LF] @ ''Page three'' @ [LF] @ [LF] @ ''Page five''"
    by (simp add: or_empty_def)
  from extract_text_from_pdf_bytes_pages [where w = ?none and b = "''%PDF-1.4''" and vs = "[]"]
  have 3: "extract_text_from_pdf_bytes ?none ''%PDF-1.4'' = []"
    by simp
  from extract_text_from_pdf_bytes_pages
      [where w = ?bad and b = "''%PDF-1.4''" and e = "Exn ''PDFSyntaxError'' ''No /Root object''"]
  have 4: "extract_text_from_pdf_bytes ?bad ''%PDF-1.4'' = []"
    by simp
  from extract_text_from_pdf_bytes_pages
      [where w = ?eof and b = "''%PDF-1.4''" and vs = "[Some ''Page one'']"
         and e = "Exn ''PSEOF'' ''Unexpected EOF''" and rest = "[]"]
  have 5: "extract_text_from_pdf_bytes ?eof ''%PDF-1.4'' = []"
    by simp
  have x: "extract_pdf_link_from_page ?bad ''https://www.sebi.gov.in/detail.html'' []
      = (Some ''https://example.com/doc.pdf'', ?l1)"
    by (simp add: sample_defs stage_defs)
  have d: "download_pdf_bytes ?bad ''https://example.com/doc.pdf'' ?l1 = (Some ''%PDF-1.4'', ?l2)"
    by (simp add: sample_defs stage_defs)
  from extract_text_from_pdf_bytes_pages
      [where w = ?bad and b = "''%PDF-1.4''" and latest = ?latest
         and link = "''https://www.sebi.gov.in/detail.html''" and log = "[]"
         and u = "''https://example.com/doc.pdf''" and ?l1.0 = ?l1 and ?l2.0 = ?l2
         and ?file = None] x d 4
  have 6: "process ?bad ?latest ([], None) = (Inr No_text, ?l2, None)"
    by simp
  from o 1 2 3 4 5 6 show ?thesis by simp
qed

section \<open>Properties of the state file\<close>

text \<open>
  For a title without a carriage return, saving and then loading returns the title
  stripped (\<open>load_after_save\<close> above).

  Claim C10 at the title \<open>a\<close>, carriage return, \<open>b\<close>, which has no surrounding white
  space: saving it writes it as it is, and loading returns \<open>a\<close>, line feed, \<open>b\<close>, not the
  title.
\<close>

theorem save_then_load_carriage_return:
  "strip [CHR ''a'', CR, CHR ''b''] = [CHR ''a'', CR, CHR ''b'']
   \<and> save_last_update (sample_world ''T'' JNull) [CHR ''a'', CR, CHR ''b''] None
       = (Inr (), Some [CHR ''a'', CR, CHR ''b''])
   \<and> load_last_update (sample_world ''T'' JNull) (Some [CHR ''a'', CR, CHR ''b''])
       = Inr (Some [CHR ''a'', LF, CHR ''b''])
   \<and> [CHR ''a'', LF, CHR ''b''] \<noteq> [CHR ''a'', CR, CHR ''b'']"
  by (simp add: sample_defs stage_defs translate_on_write_def CR_def LF_def)

section \<open>The shape of a run\<close>

lemma send_telegram_True:
  assumes "send_telegram w m log = (True, log')"
  shows "notification_confirmed w log'"
  using assms
  by (auto simp add: send_telegram_def send_request_def notification_confirmed_def
      is_telegram_def telegram_request_def
      split: option.splits if_splits sum.splits)

lemma notify_cases:
  assumes "notify w latest u txt (log, file) = (r, log', file')"
  shows "(r = Inr Not_sent \<and> file' = file)
       \<or> (notification_confirmed w log'
          \<and> save_last_update w (title latest) file = (map_sum id (\<lambda>h. ()) r, file')
          \<and> (r = Inr Saved \<or> (\<exists>e. r = Inl e)))"
  using assms
  by (auto simp add: notify_def send_telegram_True
      split: prod.splits if_splits sum.splits)

lemma process_cases:
  assumes "process w latest (log, file) = (r, log', file')"
  shows "(r \<in> Inr ` {No_detail_link, No_pdf_url, No_pdf_bytes, No_text} \<and> file' = file)
       \<or> (\<exists>u txt l. notify w latest u txt (l, file) = (r, log', file'))"
  using assms
  by (auto simp add: process_def Let_def
      split: prod.splits option.splits if_splits)

lemma main_cases:
  assumes "main w (log, file) = (r, log', file')"
  shows "(r = Inr No_update_fetched \<and> file' = file)
       \<or> (\<exists>latest l.
            get_latest_update w log = (Some latest, l)
          \<and> ((\<exists>e. r = Inl e \<and> load_last_update w file = Inl e \<and> file' = file)
            \<or> (r = Inr Already_processed \<and> file' = file
                \<and> load_last_update w file = Inr (Some (title latest)) \<and> log' = l)
            \<or> (load_last_update w file \<noteq> Inr (Some (title latest))
                \<and> process w latest (l, file) = (r, log', file'))))"
  using assms
  by (auto simp add: main_def split: prod.splits option.splits if_splits sum.splits)

subsection \<open>Requests of a run\<close>

lemma get_latest_update_log: "snd (get_latest_update w log) = log @ [GET SEBI_URL HEADERS 15]"
  by (simp add: get_latest_update_def send_request_def split: sum.splits)

lemma extract_pdf_link_from_page_log:
  "snd (extract_pdf_link_from_page w u log) = log @ [GET u HEADERS 15]"
  by (simp add: extract_pdf_link_from_page_def send_request_def split: sum.splits)

lemma download_pdf_bytes_log: "snd (download_pdf_bytes w u log) = log @ [GET u HEADERS 15]"
  by (simp add: download_pdf_bytes_def send_request_def split: sum.splits)

lemma not_telegram_GET: "\<not> is_telegram (GET u hs t)"
  by (simp add: is_telegram_def)

lemma not_telegram_hf_request: "\<not> is_telegram (hf_request w key s)"
  by (simp add: is_telegram_def hf_request_def)

lemma summarize_text_log:
  "\<exists>rs. snd (summarize_text w s log) = log @ rs \<and> filter is_telegram rs = []"
proof (cases "HF_API_KEY w")
  case None
  then show ?thesis by (simp add: summarize_text_def)
next
  case (Some key)
  show ?thesis
  proof (cases "key = []")
    case True
    with Some show ?thesis by (simp add: summarize_text_def)
  next
    case False
    with Some have "snd (summarize_text w s log) = log @ [hf_request w key s]"
      by (simp add: summarize_text_def send_request_def split: sum.splits)
    then show ?thesis using not_telegram_hf_request by auto
  qed
qed

lemma send_telegram_log:
  "\<exists>rs. snd (send_telegram w m log) = log @ rs
        \<and> length (filter is_telegram rs) = (if fst (send_telegram w m log) then 1 else length rs)
        \<and> length rs \<le> 1 \<and> filter is_telegram rs = rs"
  by (auto simp add: send_telegram_def send_request_def is_telegram_def telegram_request_def
      split: option.splits sum.splits)

lemma get_latest_update_logD:
  "get_latest_update w log = (x, l) \<Longrightarrow> l = log @ [GET SEBI_URL HEADERS 15]"
  using get_latest_update_log [of w log] by simp

lemma extract_pdf_link_from_page_logD:
  "extract_pdf_link_from_page w u log = (x, l) \<Longrightarrow> l = log @ [GET u HEADERS 15]"
  using extract_pdf_link_from_page_log [of w u log] by simp

lemma download_pdf_bytes_logD:
  "download_pdf_bytes w u log = (x, l) \<Longrightarrow> l = log @ [GET u HEADERS 15]"
  using download_pdf_bytes_log [of w u log] by simp

lemma notify_log:
  assumes "notify w latest u s (log, file) = (r, log', file')"
  shows "\<exists>rs. log' = log @ rs \<and> length (filter is_telegram rs) \<le> 1
            \<and> (r = Inr Saved \<longrightarrow> length (filter is_telegram rs) = 1)"
proof -
  obtain summary log1 where a: "summarize_text w s log = (summary, log1)"
    by (cases "summarize_text w s log") auto
  obtain sent log2 where b: "send_telegram w (compose_message w latest summary u) log1 = (sent, log2)"
    by (cases "send_telegram w (compose_message w latest summary u) log1") auto
  from summarize_text_log [of w s log] a
  obtain rs1 where 1: "log1 = log @ rs1" "filter is_telegram rs1 = []" by auto
  from send_telegram_log [of w "compose_message w latest summary u" log1] b
  obtain rs2 where 2: "log2 = log1 @ rs2"
      "length (filter is_telegram rs2) = (if sent then 1 else length rs2)" "length rs2 \<le> 1"
    by auto
  from assms a b have 3: "log' = log2" and 4: "r = Inr Saved \<longrightarrow> sent"
    by (auto simp add: notify_def split: if_splits prod.splits sum.splits)
  from 1 2 3 have "log' = log @ (rs1 @ rs2)" by simp
  moreover from 1 2 have "length (filter is_telegram (rs1 @ rs2)) \<le> 1" by (simp split: if_splits)
  moreover from 1 2 4 have "r = Inr Saved \<longrightarrow> length (filter is_telegram (rs1 @ rs2)) = 1"
    by simp
  ultimately show ?thesis by blast
qed

lemma process_shape:
  assumes "process w latest (log, file) = (r, log', file')"
  shows "(r \<noteq> Inr Saved
          \<and> (log' = log \<or> (\<exists>u. log' = log @ [GET u HEADERS 15])
               \<or> (\<exists>u v. log' = log @ [GET u HEADERS 15, GET v HEADERS 15])))
       \<or> (\<exists>u v body.
            notify w latest v body (log @ [GET u HEADERS 15, GET v HEADERS 15], file)
              = (r, log', file'))"
  using assms
  by (auto simp add: process_def Let_def
      split: prod.splits option.splits if_splits
      dest!: extract_pdf_link_from_page_logD download_pdf_bytes_logD)

lemma process_log:
  assumes "process w latest (log, file) = (r, log', file')"
  shows "\<exists>rs. log' = log @ rs \<and> length (filter is_telegram rs) \<le> 1
            \<and> (r = Inr Saved \<longrightarrow> length (filter is_telegram rs) = 1)"
proof -
  from process_shape [OF assms] consider
      (halted) gs where "log' = log @ gs" "filter is_telegram gs = []" "r \<noteq> Inr Saved"
    | (notified) u body gs where "filter is_telegram gs = []"
        "notify w latest u body (log @ gs, file) = (r, log', file')"
  proof (elim disjE conjE exE)
    assume "r \<noteq> Inr Saved" "log' = log"
    then have "log' = log @ []" "filter is_telegram [] = []" by simp_all
    with \<open>r \<noteq> Inr Saved\<close> show ?thesis using that(1) by blast
  next
    fix u assume "r \<noteq> Inr Saved" "log' = log @ [GET u HEADERS 15]"
    moreover have "filter is_telegram [GET u HEADERS 15] = []" by (simp add: not_telegram_GET)
    ultimately show ?thesis using that(1) by blast
  next
    fix u v assume "r \<noteq> Inr Saved" "log' = log @ [GET u HEADERS 15, GET v HEADERS 15]"
    moreover have "filter is_telegram [GET u HEADERS 15, GET v HEADERS 15] = []"
      by (simp add: not_telegram_GET)
    ultimately show ?thesis using that(1) by blast
  next
    fix u v body
    assume "notify w latest v body (log @ [GET u HEADERS 15, GET v HEADERS 15], file)
              = (r, log', file')"
    moreover have "filter is_telegram [GET u HEADERS 15, GET v HEADERS 15] = []"
      by (simp add: not_telegram_GET)
    ultimately show ?thesis using that(2) by blast
  qed
  then show ?thesis
  proof cases
    case halted
    then show ?thesis by auto
  next
    case notified
    from notify_log [OF notified(2)] obtain rs where
      "log' = (log @ gs) @ rs" "length (filter is_telegram rs) \<le> 1"
      "r = Inr Saved \<longrightarrow> length (filter is_telegram rs) = 1"
      by auto
    with notified(1) have "log' = log @ (gs @ rs) \<and> length (filter is_telegram (gs @ rs)) \<le> 1
        \<and> (r = Inr Saved \<longrightarrow> length (filter is_telegram (gs @ rs)) = 1)"
      by simp
    then show ?thesis by blast
  qed
qed

lemma main_shape:
  assumes "main w (log, file) = (r, log', file')"
  shows "(r \<noteq> Inr Saved \<and> log' = log @ [GET SEBI_URL HEADERS 15])
       \<or> (\<exists>latest. process w latest (log @ [GET SEBI_URL HEADERS 15], file) = (r, log', file'))"
  using assms
  by (auto simp add: main_def split: prod.splits option.splits if_splits sum.splits
      dest!: get_latest_update_logD)

lemma main_log:
  assumes "main w (log, file) = (r, log', file')"
  shows "\<exists>rs. log' = log @ rs \<and> length (filter is_telegram rs) \<le> 1
            \<and> (r = Inr Saved \<longrightarrow> length (filter is_telegram rs) = 1)"
  using main_shape [OF assms]
proof (elim disjE conjE exE)
  assume "r \<noteq> Inr Saved" "log' = log @ [GET SEBI_URL HEADERS 15]"
  then have "log' = log @ [GET SEBI_URL HEADERS 15]
      \<and> length (filter is_telegram [GET SEBI_URL HEADERS 15]) \<le> 1
      \<and> (r = Inr Saved \<longrightarrow> length (filter is_telegram [GET SEBI_URL HEADERS 15]) = 1)"
    by (simp add: not_telegram_GET)
  then show ?thesis by blast
next
  fix latest
  assume "process w latest (log @ [GET SEBI_URL HEADERS 15], file) = (r, log', file')"
  from process_log [OF this] obtain rs where
    "log' = (log @ [GET SEBI_URL HEADERS 15]) @ rs" "length (filter is_telegram rs) \<le> 1"
    "r = Inr Saved \<longrightarrow> length (filter is_telegram rs) = 1"
    by auto
  then have "log' = log @ (GET SEBI_URL HEADERS 15 # rs)
      \<and> length (filter is_telegram (GET SEBI_URL HEADERS 15 # rs)) \<le> 1
      \<and> (r = Inr Saved \<longrightarrow> length (filter is_telegram (GET SEBI_URL HEADERS 15 # rs)) = 1)"
    by (simp add: not_telegram_GET)
  then show ?thesis by blast
qed

lemma main_Saved:
  assumes "main w (log, file) = (Inr Saved, log', file')"
  shows "\<exists>latest. fst (get_latest_update w log) = Some latest
           \<and> file' = Some (translate_on_write (linesep w) (title latest))
           \<and> open_error w = None \<and> write_error w = None"
proof -
  from main_cases [OF assms] obtain latest l u body l2 where
    g: "get_latest_update w log = (Some latest, l)"
    and n: "notify w latest u body (l2, file) = (Inr Saved, log', file')"
    by (auto dest!: process_cases)
  from notify_cases [OF n]
  have "save_last_update w (title latest) file = (Inr (), file')" by auto
  then have "file' = Some (translate_on_write (linesep w) (title latest))
      \<and> open_error w = None \<and> write_error w = None"
    by (auto simp add: save_last_update_def split: option.splits)
  with g show ?thesis by auto
qed

lemma get_latest_update_title:
  assumes "fst (get_latest_update w log) = Some latest"
  shows "strip (title latest) = title latest"
  using assms
  by (auto simp add: get_latest_update_def parse_listing_def row_entry_def and_then_def
      send_request_def Let_def strip_get_text_strip
      split: sum.splits option.splits if_splits)

section \<open>Properties of the document locator\<close>

lemma extract_pdf_link_from_page_parsed:
  assumes "http w (length log) (GET detail_url HEADERS 15) = Inr resp"
    and "BeautifulSoup w (resp_text resp) = Inr soup"
  shows "fst (extract_pdf_link_from_page w detail_url log) =
           (case locate_pdf w detail_url soup of Inl e \<Rightarrow> None | Inr v \<Rightarrow> v)"
  using assms
  by (simp add: extract_pdf_link_from_page_def send_request_def and_then_def split: sum.splits)

text \<open>
  What the library's \<open>parse_qs\<close> reports under a key: the decoded values of the written
  fields whose value is not blank and whose decoded name is the key.
\<close>

lemma parse_qsl_nonblank:
  "parse_qsl unq qs =
     map (\<lambda>f. (unq (plus_to_space (fst f)), unq (plus_to_space (snd f))))
       (filter (\<lambda>f. snd f \<noteq> []) (query_fields qs))"
proof -
  have "concat (map (\<lambda>f. if snd f = [] then [] else [g f]) xs) = map g (filter (\<lambda>f. snd f \<noteq> []) xs)"
    for g :: "string \<times> string \<Rightarrow> string \<times> string" and xs
    by (induction xs) simp_all
  then show ?thesis by (simp add: parse_qsl_def)
qed

lemma parse_qs_default_nonblank:
  "parse_qs_default unq qs key =
     (case filter (\<lambda>f. snd f \<noteq> [] \<and> unq (plus_to_space (fst f)) = key) (query_fields qs) of
        [] \<Rightarrow> None
      | f # fs \<Rightarrow> Some (map (\<lambda>f. unq (plus_to_space (snd f))) (f # fs)))"
proof -
  let ?g = "\<lambda>f. (unq (plus_to_space (fst f)), unq (plus_to_space (snd f)))"
  let ?zs = "filter (\<lambda>f. snd f \<noteq> [] \<and> unq (plus_to_space (fst f)) = key) (query_fields qs)"
  have "filter (\<lambda>p. fst p = key) (parse_qsl unq qs) = map ?g ?zs"
    by (simp add: parse_qsl_nonblank filter_map comp_def conj_commute)
  then have "parse_qs_default unq qs key =
      (case map ?g ?zs of [] \<Rightarrow> None | p # ps \<Rightarrow> Some (map snd (p # ps)))"
    by (simp add: parse_qs_default_def)
  also have "\<dots> = (case ?zs of [] \<Rightarrow> None
      | f # fs \<Rightarrow> Some (map (\<lambda>f. unq (plus_to_space (snd f))) (f # fs)))"
    by (cases ?zs) (simp_all add: comp_def)
  finally show ?thesis .
qed

text \<open>
  Claim C7, as amended.  Let the detail page be fetched and parsed, and let \<open>raw\<close> be the
  reference the locator finds in it (the \<open>src\<close> of the PDF embed when it contains \<open>.pdf\<close>,
  else the \<open>src\<close> of the first inline frame), with \<open>query\<close> the result of \<open>parse_qs\<close> on its
  query component.  When \<open>query\<close> has the key \<open>file\<close>, the locator returns the first value
  under it, as \<open>parse_qs\<close> decoded it, whatever \<open>urljoin\<close> is: the value is not joined
  against the page's URL.  When \<open>query\<close> has no such key, the locator returns what
  \<open>urljoin\<close> makes of the page's URL and the reference (and nothing when \<open>urljoin\<close> raises).
  Where \<open>parse_qs\<close> answers as the library's does, \<open>query\<close> has the key \<open>file\<close> exactly when
  the reference carries a \<open>file\<close> parameter with a value that is not blank, and the values
  under the key are the decoded values of those parameters: a reference whose \<open>file\<close>
  parameters are all blank is joined.
\<close>

theorem extract_pdf_link_file_parameter:
  assumes "http w (length log) (GET detail_url HEADERS 15) = Inr resp"
    and "BeautifulSoup w (resp_text resp) = Inr soup"
    and "raw_url_of
           (find_tag (\<lambda>n. named ''embed'' n \<and> attr_is ''type'' ''application/pdf'' n) soup)
           (find_tag (named ''iframe'') soup) = Inr (Some raw)"
    and "raw \<noteq> []"
    and "urlparse_query w raw = Inr q"
    and "parse_qs w q = Inr query"
  shows "(query ''file'' = Some (v # vs) \<longrightarrow>
            fst (extract_pdf_link_from_page (w\<lparr>urljoin := j\<rparr>) detail_url log) = Some v)
       \<and> (query ''file'' = None \<longrightarrow>
            fst (extract_pdf_link_from_page w detail_url log) =
              (case urljoin w detail_url raw of Inl e \<Rightarrow> None | Inr u \<Rightarrow> Some u))
       \<and> (query = parse_qs_default unq q \<longrightarrow>
            query ''file'' =
              (case filter (\<lambda>f. snd f \<noteq> [] \<and> unq (plus_to_space (fst f)) = ''file'')
                      (query_fields q) of
                 [] \<Rightarrow> None
               | f # fs \<Rightarrow> Some (map (\<lambda>f. unq (plus_to_space (snd f))) (f # fs))))"
proof (intro conjI impI)
  assume "query ''file'' = Some (v # vs)"
  with assms(3-6) have "locate_pdf (w\<lparr>urljoin := j\<rparr>) detail_url soup = Inr (Some v)"
    by (simp add: locate_pdf_def Let_def and_then_def first_value_def)
  with extract_pdf_link_from_page_parsed [of "w\<lparr>urljoin := j\<rparr>" log detail_url resp soup] assms(1,2)
  show "fst (extract_pdf_link_from_page (w\<lparr>urljoin := j\<rparr>) detail_url log) = Some v"
    by simp
next
  assume "query ''file'' = None"
  with assms(3-6) have "locate_pdf w detail_url soup =
      (case urljoin w detail_url raw of Inl e \<Rightarrow> Inl e | Inr u \<Rightarrow> Inr (Some u))"
    by (simp add: locate_pdf_def Let_def and_then_def)
  with extract_pdf_link_from_page_parsed [OF assms(1,2)]
  show "fst (extract_pdf_link_from_page w detail_url log) =
      (case urljoin w detail_url raw of Inl e \<Rightarrow> None | Inr u \<Rightarrow> Some u)"
    by (simp split: sum.splits)
next
  assume "query = parse_qs_default unq q"
  then show "query ''file'' =
      (case filter (\<lambda>f. snd f \<noteq> [] \<and> unq (plus_to_space (fst f)) = ''file'') (query_fields q) of
         [] \<Rightarrow> None
       | f # fs \<Rightarrow> Some (map (\<lambda>f. unq (plus_to_space (snd f))) (f # fs)))"
    by (simp only: parse_qs_default_nonblank)
qed

lemmas query_defs =
  parse_qs_default_def parse_qsl_def query_fields_def field_of_def plus_to_space_def

theorem extract_pdf_link_file_parameter_witness:
  "raw_url_of
     (find_tag (\<lambda>n. named ''embed'' n \<and> attr_is ''type'' ''application/pdf'' n) sample_detail)
     (find_tag (named ''iframe'') sample_detail)
     = Inr (Some ''viewer.html?file=https://example.com/doc.pdf'')
   \<and> urlparse_query (sample_world ''T'' JNull) ''viewer.html?file=https://example.com/doc.pdf''
       = Inr ''file=https://example.com/doc.pdf''
   \<and> query_fields ''file=https://example.com/doc.pdf''
       = [(''file'', ''https://example.com/doc.pdf'')]
   \<and> parse_qs_default id ''file=https://example.com/doc.pdf'' ''file''
       = Some [''https://example.com/doc.pdf'']
   \<and> fst (extract_pdf_link_from_page
         ((sample_world ''T'' JNull)
            \<lparr>parse_qs := (\<lambda>q. Inr (parse_qs_default id q)),
             urljoin := (\<lambda>base u. Inl (Exn ''ValueError'' ''not called''))\<rparr>)
         ''https://www.sebi.gov.in/detail.html'' [])
       = Some ''https://example.com/doc.pdf''
   \<and> fst (extract_pdf_link_from_page
         ((sample_world ''T'' JNull)\<lparr>BeautifulSoup := (\<lambda>markup.
            Inr (Tag ''[document]'' [] [Tag ''iframe'' [(''src'', ''/files/doc.pdf'')] []]))\<rparr>)
         ''https://www.sebi.gov.in/detail.html'' [])
       = Some ''https://www.sebi.gov.in/files/doc.pdf''"
proof -
  let ?w = "(sample_world ''T'' JNull)\<lparr>parse_qs := (\<lambda>q. Inr (parse_qs_default id q))\<rparr>"
  let ?d = "''https://www.sebi.gov.in/detail.html''"
  let ?raw = "''viewer.html?file=https://example.com/doc.pdf''"
  let ?q = "''file=https://example.com/doc.pdf''"
  let ?t = "Tag ''[document]'' [] [Tag ''iframe'' [(''src'', ''/files/doc.pdf'')] []]"
  let ?v = "(sample_world ''T'' JNull)\<lparr>BeautifulSoup := (\<lambda>markup. Inr ?t)\<rparr>"
  have h: "http ?w (length []) (GET ?d HEADERS 15) = Inr (page_response ''detail'')"
    by (simp add: sample_defs SEBI_URL_def)
  have b: "BeautifulSoup ?w (resp_text (page_response ''detail'')) = Inr sample_detail"
    by (simp add: sample_world_def page_response_def)
  have r: "raw_url_of
      (find_tag (\<lambda>n. named ''embed'' n \<and> attr_is ''type'' ''application/pdf'' n) sample_detail)
      (find_tag (named ''iframe'') sample_detail) = Inr (Some ?raw)"
    by (simp add: sample_defs stage_defs)
  have ne: "?raw \<noteq> []" by simp
  have u: "urlparse_query ?w ?raw = Inr ?q" by (simp add: sample_world_def)
  have u0: "urlparse_query (sample_world ''T'' JNull) ?raw = Inr ?q" by (simp add: sample_world_def)
  have p: "parse_qs ?w ?q = Inr (parse_qs_default id ?q)" by simp
  have f: "query_fields ?q = [(''file'', ''https://example.com/doc.pdf'')]"
    by (simp add: query_defs)
  have k: "parse_qs_default id ?q ''file'' = Some [''https://example.com/doc.pdf'']"
    by (simp add: query_defs)
  have h': "http ?v (length []) (GET ?d HEADERS 15) = Inr (page_response ''detail'')"
    by (simp add: sample_defs SEBI_URL_def)
  have b': "BeautifulSoup ?v (resp_text (page_response ''detail'')) = Inr ?t"
    by simp
  have r': "raw_url_of
      (find_tag (\<lambda>n. named ''embed'' n \<and> attr_is ''type'' ''application/pdf'' n) ?t)
      (find_tag (named ''iframe'') ?t) = Inr (Some ''/files/doc.pdf'')"
    by (simp add: stage_defs)
  have ne': "''/files/doc.pdf'' \<noteq> []" by simp
  have u': "urlparse_query ?v ''/files/doc.pdf'' = Inr []" by (simp add: sample_world_def)
  have p': "parse_qs ?v [] = Inr Map.empty" by (simp add: sample_world_def)
  from extract_pdf_link_file_parameter [OF h b r ne u p,
      where v = "''https://example.com/doc.pdf''" and vs = "[]"
        and j = "\<lambda>base u. Inl (Exn ''ValueError'' ''not called'')" and unq = id] k
  have a: "fst (extract_pdf_link_from_page
         ((sample_world ''T'' JNull)
            \<lparr>parse_qs := (\<lambda>q. Inr (parse_qs_default id q)),
             urljoin := (\<lambda>base u. Inl (Exn ''ValueError'' ''not called''))\<rparr>) ?d [])
       = Some ''https://example.com/doc.pdf''"
    by simp
  from extract_pdf_link_file_parameter [OF h' b' r' ne' u' p']
  have c: "fst (extract_pdf_link_from_page ?v ?d []) = Some ''https://www.sebi.gov.in/files/doc.pdf''"
    by (simp add: sample_world_def)
  from r u0 f k a c show ?thesis by simp
qed

text \<open>
  Claim C7, as stated, fails for a reference whose \<open>file\<close> parameter is blank.  In a world
  whose \<open>parse_qs\<close> answers as the library's does, the inline frame's reference
  \<open>/web/viewer.html?file=\<close> carries the parameter \<open>file\<close> with the empty value; \<open>parse_qs\<close>
  leaves it out, the test \<open>"file" in query\<close> is false, and the locator returns the reference
  joined against the page's URL, not the parameter's value.
\<close>

theorem extract_pdf_link_blank_file_counterexample:
  "raw_url_of
     (find_tag (\<lambda>n. named ''embed'' n \<and> attr_is ''type'' ''application/pdf'' n)
        (Tag ''[document]'' [] [Tag ''iframe'' [(''src'', ''/web/viewer.html?file='')] []]))
     (find_tag (named ''iframe'')
        (Tag ''[document]'' [] [Tag ''iframe'' [(''src'', ''/web/viewer.html?file='')] []]))
     = Inr (Some ''/web/viewer.html?file='')
   \<and> urlparse_query (sample_world ''T'' JNull) ''/web/viewer.html?file='' = Inr ''file=''
   \<and> query_fields ''file='' = [(''file'', [])]
   \<and> parse_qs_default id ''file='' ''file'' = None
   \<and> fst (extract_pdf_link_from_page
         ((sample_world ''T'' JNull)
            \<lparr>BeautifulSoup := (\<lambda>markup.
               Inr (Tag ''[document]'' [] [Tag ''iframe'' [(''src'', ''/web/viewer.html?file='')] []])),
             parse_qs := (\<lambda>q. Inr (parse_qs_default id q))\<rparr>)
         ''https://www.sebi.gov.in/detail.html'' [])
       = Some ''https://www.sebi.gov.in/web/viewer.html?file=''"
  by (simp add: sample_defs stage_defs query_defs Let_def)

section \<open>Properties of the listing fetcher\<close>

lemma get_latest_update_detail_link:
  assumes "get_latest_update w log = (Some latest, log')"
  shows "\<exists>href u. urljoin w SEBI_URL href = Inr u \<and> detail_link latest = Some u"
  using assms
  by (auto simp add: get_latest_update_def parse_listing_def row_entry_def and_then_def
      send_request_def Let_def
      split: sum.splits option.splits if_splits)

lemma row_entry_no_anchor:
  assumes "find_tag (named ''a'') (columns ! 2) = None"
  shows "row_entry w columns = Inl (AttributeError ''NoneType'' ''get_text'')"
  using assms by (simp add: row_entry_def and_then_def)

lemma get_latest_update_no_anchor:
  assumes "http w (length log) (GET SEBI_URL HEADERS 15) = Inr resp"
    and "BeautifulSoup w (resp_text resp) = Inr soup"
    and "find_table soup = Some table"
    and "find_tag (named ''tbody'') table = Some tbody"
    and "find_tag (named ''tr'') tbody = Some first_row"
    and "3 \<le> length (find_all (named ''td'') first_row)"
    and "find_tag (named ''a'') (find_all (named ''td'') first_row ! 2) = None"
  shows "fst (get_latest_update w log) = None"
  using assms
  by (simp add: get_latest_update_def send_request_def and_then_def parse_listing_def
      row_entry_no_anchor Let_def)

lemma notify_not_No_detail_link: "fst (notify w latest u s st) \<noteq> Inr No_detail_link"
  by (cases st) (auto simp add: notify_def split: prod.splits if_splits sum.splits)

lemma process_No_detail_link:
  assumes "fst (process w latest (log, file)) = Inr No_detail_link"
  shows "falsy (detail_link latest)"
  using assms notify_not_No_detail_link
  by (auto simp add: process_def falsy_def Let_def
      split: prod.splits option.splits if_splits)

lemma main_No_detail_link:
  assumes "fst (main w (log, file)) = Inr No_detail_link"
  shows "\<exists>latest l. get_latest_update w log = (Some latest, l) \<and> falsy (detail_link latest)"
  using assms
  by (auto simp add: main_def split: prod.splits option.splits if_splits sum.splits
      dest: process_No_detail_link)

text \<open>
  Claim C9.  An entry that \<open>get_latest_update\<close> returns has a \<open>detail_link\<close> that is not
  \<open>None\<close>.  When the third column has no anchor, reading the title raises before the
  conditional of \<open>detail_link\<close> is reached, and the function returns \<open>None\<close> in place of
  an entry.  As \<open>urljoin\<close> with the listing's URL as base never returns the empty string,
  no run of \<open>main\<close> ends at the return for a missing detail link.
\<close>

theorem listing_entry_has_detail_link:
  "(get_latest_update w log = (Some latest, log') \<longrightarrow> detail_link latest \<noteq> None)
 \<and> (find_tag (named ''a'') (columns ! 2) = None \<longrightarrow>
      row_entry w columns = Inl (AttributeError ''NoneType'' ''get_text''))
 \<and> (http w (length log) (GET SEBI_URL HEADERS 15) = Inr resp
    \<and> BeautifulSoup w (resp_text resp) = Inr soup
    \<and> find_table soup = Some table
    \<and> find_tag (named ''tbody'') table = Some tbody
    \<and> find_tag (named ''tr'') tbody = Some first_row
    \<and> 3 \<le> length (find_all (named ''td'') first_row)
    \<and> find_tag (named ''a'') (find_all (named ''td'') first_row ! 2) = None \<longrightarrow>
      fst (get_latest_update w log) = None)
 \<and> ((\<nexists>href. urljoin w SEBI_URL href = Inr []) \<longrightarrow>
      fst (main w (log, file)) \<noteq> Inr No_detail_link)"
proof (intro conjI impI)
  assume "get_latest_update w log = (Some latest, log')"
  from get_latest_update_detail_link [OF this] show "detail_link latest \<noteq> None" by auto
next
  assume "find_tag (named ''a'') (columns ! 2) = None"
  then show "row_entry w columns = Inl (AttributeError ''NoneType'' ''get_text'')"
    by (rule row_entry_no_anchor)
next
  assume "http w (length log) (GET SEBI_URL HEADERS 15) = Inr resp
    \<and> BeautifulSoup w (resp_text resp) = Inr soup
    \<and> find_table soup = Some table
    \<and> find_tag (named ''tbody'') table = Some tbody
    \<and> find_tag (named ''tr'') tbody = Some first_row
    \<and> 3 \<le> length (find_all (named ''td'') first_row)
    \<and> find_tag (named ''a'') (find_all (named ''td'') first_row ! 2) = None"
  then show "fst (get_latest_update w log) = None"
    using get_latest_update_no_anchor by blast
next
  assume nonempty: "\<nexists>href. urljoin w SEBI_URL href = Inr []"
  show "fst (main w (log, file)) \<noteq> Inr No_detail_link"
  proof
    assume "fst (main w (log, file)) = Inr No_detail_link"
    from main_No_detail_link [OF this] obtain latest l where
      g: "get_latest_update w log = (Some latest, l)" and f: "falsy (detail_link latest)"
      by auto
    from get_latest_update_detail_link [OF g] obtain href u where
      "urljoin w SEBI_URL href = Inr u" "detail_link latest = Some u"
      by auto
    with f nonempty show False by (auto simp add: falsy_def)
  qed
qed

theorem listing_entry_has_detail_link_witness:
  "(\<nexists>href. urljoin (sample_world ''T'' JNull) SEBI_URL href = Inr [])
   \<and> fst (get_latest_update (sample_world ''T'' JNull) []) =
        Some \<lparr>date = ''05-Jan-2024'', category = ''Circular'', title = ''T'',
              detail_link = Some ''https://www.sebi.gov.in/detail.html''\<rparr>
   \<and> fst (main (sample_world ''T'' JNull) ([], None)) \<noteq> Inr No_detail_link
   \<and> fst (get_latest_update
         ((sample_world ''T'' JNull)\<lparr>BeautifulSoup := (\<lambda>markup.
            Inr (Tag ''[document]'' []
                  [Tag ''table'' [(''class'', ''table table-striped'')]
                     [Tag ''tbody'' []
                        [Tag ''tr'' []
                           [Tag ''td'' [] [NavigableString ''05-Jan-2024''],
                            Tag ''td'' [] [NavigableString ''Circular''],
                            Tag ''td'' [] [NavigableString ''T'']]]]]))\<rparr>) []) = None"
proof -
  let ?w = "sample_world ''T'' JNull"
  let ?row = "Tag ''tr'' []
                [Tag ''td'' [] [NavigableString ''05-Jan-2024''],
                 Tag ''td'' [] [NavigableString ''Circular''],
                 Tag ''td'' [] [NavigableString ''T'']]"
  let ?tbody = "Tag ''tbody'' [] [?row]"
  let ?table = "Tag ''table'' [(''class'', ''table table-striped'')] [?tbody]"
  let ?t = "Tag ''[document]'' [] [?table]"
  let ?v = "?w\<lparr>BeautifulSoup := (\<lambda>markup. Inr ?t)\<rparr>"
  have n: "\<nexists>href. urljoin ?w SEBI_URL href = Inr []"
    by (simp add: sample_world_def)
  have g: "get_latest_update ?w [] =
      (Some \<lparr>date = ''05-Jan-2024'', category = ''Circular'', title = ''T'',
              detail_link = Some ''https://www.sebi.gov.in/detail.html''\<rparr>,
       [GET SEBI_URL HEADERS 15])"
    by (simp add: sample_defs stage_defs Let_def)
  have h: "http ?v (length []) (GET SEBI_URL HEADERS 15) = Inr (page_response ''listing'')"
    by (simp add: sample_defs)
  have b: "BeautifulSoup ?v (resp_text (page_response ''listing'')) = Inr ?t" by simp
  have 1: "find_table ?t = Some ?table" by (simp add: stage_defs)
  have 2: "find_tag (named ''tbody'') ?table = Some ?tbody" by (simp add: stage_defs)
  have 3: "find_tag (named ''tr'') ?tbody = Some ?row" by (simp add: stage_defs)
  have 4: "3 \<le> length (find_all (named ''td'') ?row)" by (simp add: stage_defs)
  have 5: "find_tag (named ''a'') (find_all (named ''td'') ?row ! 2) = None"
    by (simp add: stage_defs)
  from listing_entry_has_detail_link
      [where w = ?w and log = "[]" and latest = "\<lparr>date = ''05-Jan-2024'', category = ''Circular'', title = ''T'',
              detail_link = Some ''https://www.sebi.gov.in/detail.html''\<rparr>"
         and log' = "[GET SEBI_URL HEADERS 15]" and ?file = None] n g
  have a: "fst (main ?w ([], None)) \<noteq> Inr No_detail_link" by simp
  from listing_entry_has_detail_link
      [where w = ?v and log = "[]" and resp = "page_response ''listing''" and soup = ?t
         and table = ?table and tbody = ?tbody and first_row = ?row] h b 1 2 3 4 5
  have c: "fst (get_latest_update ?v []) = None" by simp
  from n g a c show ?thesis by simp
qed

section \<open>Properties of a run: the state file\<close>



section \<open>Properties of a run: two runs in succession\<close>

text \<open>
  Claim C2, as amended.  Let a first run reach the save, so that its notification was
  confirmed and the title stored, on a system whose \<open>os.linesep\<close> is the line feed or
  carriage return and line feed.  Let the listing of the second run have the same first-row
  title, let that title hold no carriage return, and let the state file be readable in the
  second run.  Then the second run returns at the comparison of the titles, having made the
  request for the listing and no other, with the state file as the first run left it; the
  two runs together made exactly one post to the chat endpoint.
\<close>

theorem second_run_halts_on_unchanged_title:
  assumes run1: "main w1 ([], file0) = (Inr Saved, log1, file1)"
    and sep: "linesep w1 = [LF] \<or> linesep w1 = [CR, LF]"
    and e1: "fst (get_latest_update w1 []) = Some e1"
    and e2: "fst (get_latest_update w2 []) = Some e2"
    and same: "title e2 = title e1"
    and cr: "CR \<notin> set (title e1)"
    and rd: "read_error w2 = None"
  shows "main w2 ([], file1) = (Inr Already_processed, [GET SEBI_URL HEADERS 15], file1)
       \<and> length (filter is_telegram (log1 @ [GET SEBI_URL HEADERS 15])) = 1"
proof -
  from main_Saved [OF run1] e1
  have f1: "file1 = Some (translate_on_write (linesep w1) (title e1))"
    and ok: "open_error w1 = None" "write_error w1 = None"
    by auto
  from load_after_save [OF cr sep ok rd, of file0]
  have "load_last_update w2 file1 = Inr (Some (strip (title e1)))"
    by (simp add: f1)
  with get_latest_update_title [OF e1] same
  have ld: "load_last_update w2 file1 = Inr (Some (title e2))" by simp
  obtain l2 where g2: "get_latest_update w2 [] = (Some e2, l2)"
    using e2 by (cases "get_latest_update w2 []") auto
  from get_latest_update_logD [OF g2] have l2: "l2 = [GET SEBI_URL HEADERS 15]" by simp
  from g2 ld l2 have "main w2 ([], file1) = (Inr Already_processed, [GET SEBI_URL HEADERS 15], file1)"
    by (simp add: main_def)
  moreover from main_log [OF run1] have "length (filter is_telegram log1) = 1" by auto
  ultimately show ?thesis by (simp add: not_telegram_GET)
qed

theorem second_run_halts_on_unchanged_title_witness:
  "fst (main (sample_world ''Test Circular'' (JStr ''A summary'')) ([], None)) = Inr Saved
   \<and> snd (snd (main (sample_world ''Test Circular'' (JStr ''A summary'')) ([], None)))
       = Some ''Test Circular''
   \<and> CR \<notin> set ''Test Circular''
   \<and> main (sample_world ''Test Circular'' (JStr ''A summary''))
        ([], snd (snd (main (sample_world ''Test Circular'' (JStr ''A summary'')) ([], None))))
       = (Inr Already_processed, [GET SEBI_URL HEADERS 15], Some ''Test Circular'')
   \<and> length (filter is_telegram
        (fst (snd (main (sample_world ''Test Circular'' (JStr ''A summary'')) ([], None)))
         @ [GET SEBI_URL HEADERS 15])) = 1"
proof -
  let ?w = "sample_world ''Test Circular'' (JStr ''A summary'')"
  let ?e = "\<lparr>date = ''05-Jan-2024'', category = ''Circular'', title = ''Test Circular'',
            detail_link = Some ''https://www.sebi.gov.in/detail.html''\<rparr>"
  have s: "fst (main ?w ([], None)) = Inr Saved"
    by (simp add: sample_defs stage_defs Let_def)
  have f: "snd (snd (main ?w ([], None))) = Some ''Test Circular''"
    by (simp add: sample_defs stage_defs Let_def)
  have run1: "main ?w ([], None) =
      (Inr Saved, fst (snd (main ?w ([], None))), snd (snd (main ?w ([], None))))"
    using s by (metis prod.collapse)
  have sep: "linesep ?w = [LF] \<or> linesep ?w = [CR, LF]" by (simp add: sample_world_def)
  have e: "fst (get_latest_update ?w []) = Some ?e"
    by (simp add: sample_defs stage_defs Let_def)
  have same: "title ?e = title ?e" by simp
  have cr: "CR \<notin> set (title ?e)" by (simp add: CR_def)
  have rd: "read_error ?w = None" by (simp add: sample_world_def)
  from second_run_halts_on_unchanged_title [OF run1 sep e e same cr rd] s f cr
  show ?thesis by simp
qed

text \<open>
  Claim C2, as stated, fails where the first run's notification is not confirmed.  Without
  the chat credentials the first run stores nothing, so the second run (the same world, the
  state file still absent) fetches the detail page and the document and calls the
  summarizer again; no post to the chat endpoint is made in either run.
\<close>

theorem two_runs_without_credentials_counterexample:
  "fst (main ((sample_world ''Test Circular'' (JStr ''A summary''))
               \<lparr>environ := [''HF_API_KEY'' \<mapsto> ''hf-key'']\<rparr>) ([], None)) = Inr Not_sent
   \<and> snd (snd (main ((sample_world ''Test Circular'' (JStr ''A summary''))
               \<lparr>environ := [''HF_API_KEY'' \<mapsto> ''hf-key'']\<rparr>) ([], None))) = None
   \<and> fst (snd (main ((sample_world ''Test Circular'' (JStr ''A summary''))
               \<lparr>environ := [''HF_API_KEY'' \<mapsto> ''hf-key'']\<rparr>) ([], None)))
       = [GET SEBI_URL HEADERS 15,
          GET ''https://www.sebi.gov.in/detail.html'' HEADERS 15,
          GET ''https://example.com/doc.pdf'' HEADERS 15,
          hf_request ((sample_world ''Test Circular'' (JStr ''A summary''))
               \<lparr>environ := [''HF_API_KEY'' \<mapsto> ''hf-key'']\<rparr>) ''hf-key'' (''Page one'' @ [LF])]
   \<and> filter is_telegram
        (fst (snd (main ((sample_world ''Test Circular'' (JStr ''A summary''))
               \<lparr>environ := [''HF_API_KEY'' \<mapsto> ''hf-key'']\<rparr>) ([], None)))
         @ fst (snd (main ((sample_world ''Test Circular'' (JStr ''A summary''))
               \<lparr>environ := [''HF_API_KEY'' \<mapsto> ''hf-key'']\<rparr>) ([], None)))) = []"
  by (simp add: sample_defs stage_defs Let_def is_telegram_def)

text \<open>
  With a carriage return in the title the hypothesis of C2 as amended is not met: the first
  run stores the title, the second reads it back with a line feed in the place of the
  carriage return, finds the titles different and sends a second notification.
\<close>

lemma two_runs_carriage_return_title:
  "fst (main (sample_world [CHR ''a'', CR, CHR ''b''] (JStr ''A summary'')) ([], None)) = Inr Saved
   \<and> snd (snd (main (sample_world [CHR ''a'', CR, CHR ''b''] (JStr ''A summary'')) ([], None)))
       = Some [CHR ''a'', CR, CHR ''b'']
   \<and> fst (main (sample_world [CHR ''a'', CR, CHR ''b''] (JStr ''A summary''))
            ([], Some [CHR ''a'', CR, CHR ''b''])) = Inr Saved
   \<and> notification_confirmed (sample_world [CHR ''a'', CR, CHR ''b''] (JStr ''A summary''))
        (fst (snd (main (sample_world [CHR ''a'', CR, CHR ''b''] (JStr ''A summary''))
            ([], Some [CHR ''a'', CR, CHR ''b'']))))"
  by (simp add: sample_defs stage_defs Let_def notification_confirmed_def is_telegram_def)

section \<open>Properties of a run: the exit status\<close>

text \<open>
  An exception leaves \<open>main\<close> only from the two functions that have no handler: what
  \<open>main\<close> raises is what reading the existing state file, or opening or writing it,
  raised.  What the five stages with a handler raise never leaves them.
\<close>

lemma main_raises_only_file_errors:
  assumes "fst (main w (log, file)) = Inl e"
  shows "(file \<noteq> None \<and> read_error w = Some e) \<or> open_error w = Some e
       \<or> (open_error w = None \<and> write_error w = Some e)"
proof -
  obtain r log' file' where m: "main w (log, file) = (r, log', file')"
    by (cases "main w (log, file)") auto
  with assms have r: "r = Inl e" by simp
  from main_cases [OF m] r
  consider (load_raised) "load_last_update w file = Inl e"
    | (save_raised) latest u body l where "notify w latest u body (l, file) = (Inl e, log', file')"
    by (auto dest!: process_cases)
  then show ?thesis
  proof cases
    case load_raised
    then show ?thesis
      by (auto simp add: load_last_update_def split: option.splits)
  next
    case save_raised
    from notify_cases [OF this]
    have "fst (save_last_update w (title latest) file) = Inl e" by auto
    then show ?thesis
      by (auto simp add: save_last_update_def split: option.splits)
  qed
qed

lemma exit_status_zero_without_file_errors:
  assumes "read_error w = None" and "open_error w = None" and "write_error w = None"
  shows "exit_status w file = 0"
proof (cases "fst (main w ([], file))")
  case (Inl e)
  from main_raises_only_file_errors [OF this] assms show ?thesis by simp
next
  case (Inr h)
  then show ?thesis by (simp add: exit_status_def)
qed

text \<open>
  Claim C4 at a run whose listing is well formed and whose state file exists and cannot be
  decoded: \<open>load_last_update\<close> raises, \<open>main\<close> has no handler, and the process ends
  with status 1.
\<close>

theorem unreadable_state_file_exit_status:
  "exit_status
     ((sample_world ''Test Circular'' (JStr ''A summary''))
        \<lparr>read_error := Some (Exn ''UnicodeDecodeError'' ''invalid start byte'')\<rparr>)
     (Some ''Old title'') = 1"
  by (simp add: exit_status_def sample_defs stage_defs Let_def)

end
